theory Spec2Isabelle
  imports Complex_Main "HOL-Library.Signed_Division"
begin

section \<open>Numeric containers (transformer\_types.h)\<close>

text \<open>
  \<^verbatim>\<open>typedef std::vector<float> Vector; typedef std::vector<std::vector<float>> Matrix;\<close>

  A \<^verbatim>\<open>float\<close> is modelled as a \<^typ>\<open>real\<close>. The functions of this first part perform
  every arithmetic operation exactly; they carry the structure of the computation (which
  entries are read and written, in which order) and the claims that do not depend on the
  value of a float result. Section \<open>Rounded arithmetic\<close> repeats the numeric functions with
  the rounding of every operation, and the claims about the values that \<open>softmax\<close>,
  \<open>layerNorm\<close> and the masked attention return are stated on those.

  \<^verbatim>\<open>operator[]\<close> of \<^verbatim>\<open>std::vector\<close> is not range checked; an index past the end is
  undefined behaviour in the source and an unspecified value of \<open>xs ! i\<close> here. The
  theorems assume the shapes under which every index is in range.
\<close>

type_synonym Vector = "real list"
type_synonym Matrix = "real list list"

subsection \<open>Utils\<close>

text \<open>\<^verbatim>\<open>for (i = 0; i < a.size(); ++i) result += a[i] * b[i];\<close>\<close>

definition dotProduct :: "Vector \<Rightarrow> Vector \<Rightarrow> real" where
  "dotProduct a b = fold (\<lambda>i result. result + a ! i * b ! i) [0..<length a] 0"

text \<open>
  Vector times matrix: \<^verbatim>\<open>result\<close> has \<^verbatim>\<open>matrix[0].size()\<close> entries, entry \<open>i\<close> accumulates
  \<^verbatim>\<open>vec[j] * matrix[j][i]\<close> over \<open>j\<close>.
\<close>

definition matMul :: "Vector \<Rightarrow> Matrix \<Rightarrow> Vector" where
  "matMul vec matrix =
     map (\<lambda>i. fold (\<lambda>j r. r + vec ! j * matrix ! j ! i) [0..<length vec] 0)
         [0..<length (matrix ! 0)]"

definition add :: "Vector \<Rightarrow> Vector \<Rightarrow> Vector" where
  "add a b = map (\<lambda>i. a ! i + b ! i) [0..<length a]"

text \<open>
  \<^verbatim>\<open>*std::max_element(first, last)\<close>: the running largest element is replaced when it is
  \<^verbatim>\<open><\<close> the next one. On an empty range the source dereferences \<^verbatim>\<open>end()\<close>.
\<close>

definition max_element :: "Vector \<Rightarrow> real" where
  "max_element xs = fold (\<lambda>x largest. if largest < x then x else largest) (tl xs) (hd xs)"

text \<open>\<^verbatim>\<open>std::accumulate(first, last, 0.0f)\<close>: \<^verbatim>\<open>acc = acc + *it\<close>.\<close>

definition accumulate :: "Vector \<Rightarrow> real \<Rightarrow> real" where
  "accumulate xs init = fold (\<lambda>x acc. acc + x) xs init"

definition expScores :: "Vector \<Rightarrow> Vector" where
  "expScores scores = map (\<lambda>score. exp (score - max_element scores)) scores"

definition sumExpScores :: "Vector \<Rightarrow> real" where
  "sumExpScores scores = accumulate (expScores scores) 0"

definition softmax :: "Vector \<Rightarrow> Vector" where
  "softmax scores =
     map (\<lambda>i. expScores scores ! i / sumExpScores scores) [0..<length scores]"

text \<open>
  \<^verbatim>\<open>layerNorm(input, gamma, beta, epsilon = 1e-5)\<close>. The division by \<^verbatim>\<open>input.size()\<close> is a
  floating division, so an empty input does not trap.
\<close>

definition layerNorm_mean :: "Vector \<Rightarrow> real" where
  "layerNorm_mean input = accumulate input 0 / real (length input)"

definition layerNorm_variance :: "Vector \<Rightarrow> real" where
  "layerNorm_variance input =
     fold (\<lambda>val variance.
             variance + (val - layerNorm_mean input) * (val - layerNorm_mean input))
          input 0
     / real (length input)"

definition layerNorm :: "Vector \<Rightarrow> Vector \<Rightarrow> Vector \<Rightarrow> real \<Rightarrow> Vector" where
  "layerNorm input gamma beta epsilon =
     map (\<lambda>i. gamma ! i * (input ! i - layerNorm_mean input)
                 / sqrt (layerNorm_variance input + epsilon) + beta ! i)
         [0..<length input]"

definition default_epsilon :: real where
  "default_epsilon = 1 / 100000"

text \<open>
  The mean and the population variance as the specification words them: the sum of the
  entries over their number, and the sum of squared deviations over their number.
\<close>

definition arithmetic_mean :: "Vector \<Rightarrow> real" where
  "arithmetic_mean v = (\<Sum>x\<leftarrow>v. x) / real (length v)"

definition population_variance :: "Vector \<Rightarrow> real" where
  "population_variance v = (\<Sum>x\<leftarrow>v. (x - arithmetic_mean v)\<^sup>2) / real (length v)"

section \<open>Random initialisation\<close>

text \<open>
  \<^verbatim>\<open>rand()\<close> is a hidden global generator. The model threads it: a \<open>rand_source\<close> is the
  sequence of values \<^verbatim>\<open>(float)rand() / RAND_MAX - 0.5\<close> still to be drawn.

  \<^verbatim>\<open>matrix.assign(rows, Vector(cols))\<close> converts its \<^verbatim>\<open>int\<close> arguments to \<^verbatim>\<open>size_t\<close>; a
  negative one becomes larger than \<^verbatim>\<open>max_size()\<close> and the vector throws
  \<^verbatim>\<open>std::length_error\<close>. Exhausted memory is not modelled.
\<close>

type_synonym rand_source = "nat \<Rightarrow> real"

datatype error = UndefinedDivision | LengthError

definition initializeMatrix :: "rand_source \<Rightarrow> int \<Rightarrow> int \<Rightarrow> error + Matrix \<times> rand_source" where
  "initializeMatrix rnd rows cols =
     (if rows < 0 \<or> cols < 0 then Inl LengthError
      else Inr (map (\<lambda>i. map (\<lambda>j. rnd (i * nat cols + j)) [0..<nat cols]) [0..<nat rows],
                \<lambda>n. rnd (nat rows * nat cols + n)))"

text \<open>\<^verbatim>\<open>v.assign(n, x)\<close> with an \<^verbatim>\<open>int\<close> count.\<close>

definition assign :: "int \<Rightarrow> real \<Rightarrow> error + Vector" where
  "assign n x = (if n < 0 then Inl LengthError else Inr (replicate (nat n) x))"

section \<open>Multi-head self-attention (self\_attention.h)\<close>

record MultiHeadSelfAttention =
  embeddingDim :: int
  numHeads :: int
  headDim :: int
  W_Q :: Matrix
  W_K :: Matrix
  W_V :: Matrix
  W_O :: Matrix

text \<open>
  The constructor. Its initialiser list computes \<^verbatim>\<open>headDim(embedDim / nHeads)\<close>, the
  truncating division of two 32-bit \<^verbatim>\<open>int\<close>s, before the body runs; dividing by zero, and
  \<^verbatim>\<open>INT_MIN / -1\<close>, are undefined. There is no other check on the two arguments.
\<close>

definition MultiHeadSelfAttention_new ::
  "rand_source \<Rightarrow> int \<Rightarrow> int \<Rightarrow> error + MultiHeadSelfAttention \<times> rand_source" where
  "MultiHeadSelfAttention_new rnd embedDim nHeads =
     (if nHeads = 0 \<or> (embedDim = - 2147483648 \<and> nHeads = - 1) then Inl UndefinedDivision
      else case initializeMatrix rnd embedDim embedDim of
        Inl e \<Rightarrow> Inl e
      | Inr (wq, rnd1) \<Rightarrow>
      (case initializeMatrix rnd1 embedDim embedDim of
        Inl e \<Rightarrow> Inl e
      | Inr (wk, rnd2) \<Rightarrow>
      (case initializeMatrix rnd2 embedDim embedDim of
        Inl e \<Rightarrow> Inl e
      | Inr (wv, rnd3) \<Rightarrow>
      (case initializeMatrix rnd3 embedDim embedDim of
        Inl e \<Rightarrow> Inl e
      | Inr (wo, rnd4) \<Rightarrow>
          Inr (\<lparr>embeddingDim = embedDim, numHeads = nHeads, headDim = embedDim sdiv nHeads,
                 W_Q = wq, W_K = wk, W_V = wv, W_O = wo\<rparr>, rnd4)))))"

text \<open>\<^verbatim>\<open>scores[i][j] = dotProduct(Q[i], K[j]) / std::sqrt(headDim)\<close>\<close>

definition attention_scores :: "int \<Rightarrow> Matrix \<Rightarrow> Matrix \<Rightarrow> Matrix" where
  "attention_scores hdim Q K =
     map (\<lambda>i. map (\<lambda>j. dotProduct (Q ! i) (K ! j) / sqrt (real_of_int hdim)) [0..<length K])
         [0..<length Q]"

text \<open>\<^verbatim>\<open>for (j = i + 1; j < scores[i].size(); ++j) scores[i][j] = -1e9;\<close>\<close>

definition apply_mask :: "Matrix \<Rightarrow> Matrix" where
  "apply_mask scores =
     map (\<lambda>i. fold (\<lambda>j row. row[j := - 1000000000]) [Suc i..<length (scores ! i)] (scores ! i))
         [0..<length scores]"

definition attentionWeights :: "Matrix \<Rightarrow> Matrix" where
  "attentionWeights scores = map (\<lambda>i. softmax (scores ! i)) [0..<length scores]"

text \<open>\<^verbatim>\<open>output[i][k] += attentionWeights[i][j] * V[j][k]\<close>, \<open>j\<close> innermost.\<close>

definition weighted_values :: "Matrix \<Rightarrow> Matrix \<Rightarrow> Matrix" where
  "weighted_values weights V =
     map (\<lambda>i. map (\<lambda>k. fold (\<lambda>j acc. acc + weights ! i ! j * V ! j ! k)
                          [0..<length (weights ! 0)] 0)
                [0..<length (V ! 0)])
         [0..<length weights]"

definition scaledDotProductAttention :: "int \<Rightarrow> Matrix \<Rightarrow> Matrix \<Rightarrow> Matrix \<Rightarrow> bool \<Rightarrow> Matrix" where
  "scaledDotProductAttention hdim Q K V masked =
     (let scores = attention_scores hdim Q K;
          scores = (if masked then apply_mask scores else scores)
      in weighted_values (attentionWeights scores) V)"

text \<open>\<^verbatim>\<open>Q_all[i] = Utils::matMul(input[i], W_Q)\<close> for every position, and likewise K, V.\<close>

definition project :: "Matrix \<Rightarrow> Matrix \<Rightarrow> Matrix" where
  "project input W = map (\<lambda>i. matMul (input ! i) W) [0..<length input]"

text \<open>\<^verbatim>\<open>Q_head[i][d] = Q_all[i][h * headDim + d]\<close>\<close>

definition head_slice :: "nat \<Rightarrow> nat \<Rightarrow> nat \<Rightarrow> Matrix \<Rightarrow> Matrix" where
  "head_slice seqLen h hdim M_all =
     map (\<lambda>i. map (\<lambda>d. M_all ! i ! (h * hdim + d)) [0..<hdim]) [0..<seqLen]"

text \<open>\<^verbatim>\<open>concatenatedHeads[i][h * headDim + d] = headOutput[i][d]\<close>\<close>

definition write_head :: "nat \<Rightarrow> nat \<Rightarrow> nat \<Rightarrow> Matrix \<Rightarrow> Matrix \<Rightarrow> Matrix" where
  "write_head seqLen h hdim headOutput concatenatedHeads =
     fold (\<lambda>i c. fold (\<lambda>d c. c[i := (c ! i)[h * hdim + d := headOutput ! i ! d]]) [0..<hdim] c)
          [0..<seqLen] concatenatedHeads"

definition head_step ::
  "MultiHeadSelfAttention \<Rightarrow> nat \<Rightarrow> Matrix \<Rightarrow> Matrix \<Rightarrow> Matrix \<Rightarrow> bool \<Rightarrow> nat \<Rightarrow> Matrix \<Rightarrow> Matrix" where
  "head_step m seqLen Q_all K_all V_all masked h concatenatedHeads =
     (let Q_head = head_slice seqLen h (nat (headDim m)) Q_all;
          K_head = head_slice seqLen h (nat (headDim m)) K_all;
          V_head = head_slice seqLen h (nat (headDim m)) V_all;
          headOutput = scaledDotProductAttention (headDim m) Q_head K_head V_head masked
      in write_head seqLen h (nat (headDim m)) headOutput concatenatedHeads)"

definition MultiHeadSelfAttention_forward :: "MultiHeadSelfAttention \<Rightarrow> Matrix \<Rightarrow> bool \<Rightarrow> Matrix" where
  "MultiHeadSelfAttention_forward m input masked =
     (let seqLen = length input;
          Q_all = project input (W_Q m);
          K_all = project input (W_K m);
          V_all = project input (W_V m);
          concatenatedHeads =
            fold (head_step m seqLen Q_all K_all V_all masked) [0..<nat (numHeads m)]
                 (replicate seqLen (replicate (nat (embeddingDim m)) 0))
      in map (\<lambda>i. matMul (concatenatedHeads ! i) (W_O m)) [0..<seqLen])"

section \<open>Layers (transformer\_layers.h)\<close>

record FeedForwardNetwork =
  W1 :: Matrix
  W2 :: Matrix
  B1 :: Vector
  B2 :: Vector
  inputDim :: int
  hiddenDim :: int

definition relu :: "Vector \<Rightarrow> Vector" where
  "relu input = map (\<lambda>i. max 0 (input ! i)) [0..<length input]"

definition FeedForwardNetwork_new ::
  "rand_source \<Rightarrow> int \<Rightarrow> int \<Rightarrow> error + FeedForwardNetwork \<times> rand_source" where
  "FeedForwardNetwork_new rnd inDim hDim =
     (case initializeMatrix rnd inDim hDim of
        Inl e \<Rightarrow> Inl e
      | Inr (w1, rnd1) \<Rightarrow>
      (case initializeMatrix rnd1 hDim inDim of
        Inl e \<Rightarrow> Inl e
      | Inr (w2, rnd2) \<Rightarrow>
      (case assign hDim 0 of
        Inl e \<Rightarrow> Inl e
      | Inr b1 \<Rightarrow>
      (case assign inDim 0 of
        Inl e \<Rightarrow> Inl e
      | Inr b2 \<Rightarrow>
          Inr (\<lparr>W1 = w1, W2 = w2, B1 = b1, B2 = b2, inputDim = inDim, hiddenDim = hDim\<rparr>,
               rnd2)))))"

definition FeedForwardNetwork_forward :: "FeedForwardNetwork \<Rightarrow> Vector \<Rightarrow> Vector" where
  "FeedForwardNetwork_forward f input =
     (let hidden = add (matMul input (W1 f)) (B1 f);
          hidden = relu hidden
      in add (matMul hidden (W2 f)) (B2 f))"

record EncoderLayer =
  selfAttention :: MultiHeadSelfAttention
  ffn :: FeedForwardNetwork
  ln1_gamma :: Vector
  ln1_beta :: Vector
  ln2_gamma :: Vector
  ln2_beta :: Vector
  enc_embeddingDim :: int

definition EncoderLayer_new ::
  "rand_source \<Rightarrow> int \<Rightarrow> int \<Rightarrow> int \<Rightarrow> error + EncoderLayer \<times> rand_source" where
  "EncoderLayer_new rnd embedDim nHeads ffnHiddenDim =
     (case MultiHeadSelfAttention_new rnd embedDim nHeads of
        Inl e \<Rightarrow> Inl e
      | Inr (sa, rnd1) \<Rightarrow>
      (case FeedForwardNetwork_new rnd1 embedDim ffnHiddenDim of
        Inl e \<Rightarrow> Inl e
      | Inr (ff, rnd2) \<Rightarrow>
      (case assign embedDim 1 of
        Inl e \<Rightarrow> Inl e
      | Inr ones \<Rightarrow>
      (case assign embedDim 0 of
        Inl e \<Rightarrow> Inl e
      | Inr zeros \<Rightarrow>
          Inr (\<lparr>selfAttention = sa, ffn = ff,
                 ln1_gamma = ones, ln1_beta = zeros, ln2_gamma = ones, ln2_beta = zeros,
                 enc_embeddingDim = embedDim\<rparr>, rnd2)))))"

text \<open>The three loops of \<^verbatim>\<open>EncoderLayer::forward\<close>, each over \<^verbatim>\<open>i < input.size()\<close>.\<close>

definition EncoderLayer_output1 :: "EncoderLayer \<Rightarrow> Matrix \<Rightarrow> Matrix" where
  "EncoderLayer_output1 l input =
     (let attnOutput = MultiHeadSelfAttention_forward (selfAttention l) input False
      in map (\<lambda>i. layerNorm (add (input ! i) (attnOutput ! i)) (ln1_gamma l) (ln1_beta l)
                     default_epsilon)
             [0..<length input])"

definition EncoderLayer_forward :: "EncoderLayer \<Rightarrow> Matrix \<Rightarrow> Matrix" where
  "EncoderLayer_forward l input =
     (let output1 = EncoderLayer_output1 l input;
          ffnOutput = map (\<lambda>i. FeedForwardNetwork_forward (ffn l) (output1 ! i)) [0..<length input]
      in map (\<lambda>i. layerNorm (add (output1 ! i) (ffnOutput ! i)) (ln2_gamma l) (ln2_beta l)
                     default_epsilon)
             [0..<length input])"

record DecoderLayer =
  maskedSelfAttention :: MultiHeadSelfAttention
  encoderDecoderAttention :: MultiHeadSelfAttention
  dec_ffn :: FeedForwardNetwork
  dec_ln1_gamma :: Vector
  dec_ln1_beta :: Vector
  dec_ln2_gamma :: Vector
  dec_ln2_beta :: Vector
  dec_ln3_gamma :: Vector
  dec_ln3_beta :: Vector
  dec_embeddingDim :: int

definition DecoderLayer_forward :: "DecoderLayer \<Rightarrow> Matrix \<Rightarrow> Matrix \<Rightarrow> Matrix" where
  "DecoderLayer_forward l targetInput encoderOutput =
     (let maskedAttnOutput =
            MultiHeadSelfAttention_forward (maskedSelfAttention l) targetInput True;
          output1 = map (\<lambda>i. layerNorm (add (targetInput ! i) (maskedAttnOutput ! i))
                                (dec_ln1_gamma l) (dec_ln1_beta l) default_epsilon)
                        [0..<length targetInput];
          encDecAttnOutput =
            MultiHeadSelfAttention_forward (encoderDecoderAttention l) output1 False;
          output2 = map (\<lambda>i. layerNorm (add (output1 ! i) (encDecAttnOutput ! i))
                                (dec_ln2_gamma l) (dec_ln2_beta l) default_epsilon)
                        [0..<length targetInput];
          ffnOutput = map (\<lambda>i. FeedForwardNetwork_forward (dec_ffn l) (output2 ! i))
                          [0..<length targetInput]
      in map (\<lambda>i. layerNorm (add (output2 ! i) (ffnOutput ! i))
                     (dec_ln3_gamma l) (dec_ln3_beta l) default_epsilon)
             [0..<length targetInput])"

text \<open>\<^verbatim>\<open>for (auto& layer : layers) output = layer.forward(output);\<close>\<close>

definition Encoder_forward :: "EncoderLayer list \<Rightarrow> Matrix \<Rightarrow> Matrix" where
  "Encoder_forward layers input = fold (\<lambda>layer output. EncoderLayer_forward layer output) layers input"

definition Decoder_forward :: "DecoderLayer list \<Rightarrow> Matrix \<Rightarrow> Matrix \<Rightarrow> Matrix" where
  "Decoder_forward layers targetInput encoderOutput =
     fold (\<lambda>layer output. DecoderLayer_forward layer output encoderOutput) layers targetInput"

section \<open>Tokenizer and embeddings (tokenizer\_embeddings.h)\<close>

record Tokenizer =
  wordToIndex :: "string \<rightharpoonup> int"
  indexToWord :: "int \<rightharpoonup> string"
  vocabSize :: int

text \<open>\<^verbatim>\<open>::tolower\<close> in the C locale: the letters \<^verbatim>\<open>A\<close> to \<^verbatim>\<open>Z\<close> move to \<^verbatim>\<open>a\<close> to \<^verbatim>\<open>z\<close>.\<close>

definition tolower :: "char \<Rightarrow> char" where
  "tolower c = (if 65 \<le> (of_char c :: nat) \<and> (of_char c :: nat) \<le> 90
                then char_of (of_char c + (32 :: nat)) else c)"

definition encode :: "Tokenizer \<Rightarrow> string \<Rightarrow> int" where
  "encode t word = (case wordToIndex t (map tolower word) of Some i \<Rightarrow> i | None \<Rightarrow> - 1)"

definition decode :: "Tokenizer \<Rightarrow> int \<Rightarrow> string" where
  "decode t index = (case indexToWord t index of Some w \<Rightarrow> w | None \<Rightarrow> ''<unk>'')"

record Embeddings =
  wordEmbeddings :: Matrix
  positionalEncodings :: Matrix
  emb_embeddingDim :: int
  maxSequenceLength :: int

definition getEmbedding :: "Embeddings \<Rightarrow> int \<Rightarrow> nat \<Rightarrow> Vector" where
  "getEmbedding e tokenIndex position =
     add (wordEmbeddings e ! nat tokenIndex) (positionalEncodings e ! position)"

section \<open>The model and its prediction (main.cpp)\<close>

record Transformer =
  tokenizer :: Tokenizer
  embeddings :: Embeddings
  encoder :: "EncoderLayer list"
  decoder :: "DecoderLayer list"
  outputLayerWeights :: Matrix
  tr_embeddingDim :: int
  tr_vocabSize :: int

text \<open>
  \<^verbatim>\<open>while (iss >> word) tokens.push_back(word);\<close> Formatted extraction skips the white
  space of the classic locale (space, \<^verbatim>\<open>\t \n \v \f \r\<close>) and reads up to the next one.
  \<open>extract_words cur rest\<close> holds in \<open>cur\<close> the characters of the word being read, last one
  first.
\<close>

definition isspace :: "char \<Rightarrow> bool" where
  "isspace c = ((of_char c :: nat) = 32 \<or> (9 \<le> (of_char c :: nat) \<and> (of_char c :: nat) \<le> 13))"

fun extract_words :: "string \<Rightarrow> string \<Rightarrow> string list" where
  "extract_words cur [] = (if cur = [] then [] else [rev cur])"
| "extract_words cur (c # cs) =
     (if isspace c then (if cur = [] then extract_words [] cs else rev cur # extract_words [] cs)
      else extract_words (c # cur) cs)"

definition tokens_of :: "string \<Rightarrow> string list" where
  "tokens_of sentence = extract_words [] sentence"

text \<open>
  The selection loop: \<^verbatim>\<open>predictedIndex = 0, maxProb = 0.0f\<close>, then for every \<open>i\<close> in order
  \<^verbatim>\<open>if (probabilities[i] > maxProb) { maxProb = probabilities[i]; predictedIndex = i; }\<close>
\<close>

definition select_step :: "Vector \<Rightarrow> nat \<Rightarrow> nat \<times> real \<Rightarrow> nat \<times> real" where
  "select_step probabilities i st =
     (if probabilities ! i > snd st then (i, probabilities ! i) else st)"

definition predictedIndex :: "Vector \<Rightarrow> nat" where
  "predictedIndex probabilities =
     fst (fold (select_step probabilities) [0..<length probabilities] (0, 0))"

text \<open>The warning written to \<^verbatim>\<open>std::cerr\<close> for an unknown token is not modelled.\<close>

definition encoderInput :: "Transformer \<Rightarrow> string list \<Rightarrow> Matrix" where
  "encoderInput t tokens =
     map (\<lambda>i. let tokenIdx = encode (tokenizer t) (tokens ! i)
               in if tokenIdx = - 1 then replicate (nat (tr_embeddingDim t)) 0
                  else getEmbedding (embeddings t) tokenIdx i)
         [0..<length tokens]"

definition predictNextWord :: "Transformer \<Rightarrow> string \<Rightarrow> string" where
  "predictNextWord t sentence =
     (let tokens = tokens_of sentence
      in if tokens = [] then ''''
         else
           let encoderOutput = Encoder_forward (encoder t) (encoderInput t tokens);
               lastEncoderOutput = encoderOutput ! (length encoderOutput - 1);
               logits = matMul lastEncoderOutput (outputLayerWeights t);
               probabilities = softmax logits
           in decode (tokenizer t) (int (predictedIndex probabilities)))"

section \<open>Shapes\<close>

text \<open>A matrix of \<open>r\<close> rows, each of \<open>c\<close> entries.\<close>

definition is_matrix :: "nat \<Rightarrow> nat \<Rightarrow> Matrix \<Rightarrow> bool" where
  "is_matrix r c M = (length M = r \<and> list_all (\<lambda>row. length row = c) M)"

section \<open>Rounded arithmetic\<close>

text \<open>
  The value of a \<^verbatim>\<open>float\<close> expression is the rounded value of the exact result of each of
  its operations. Here the numeric functions are written once more with a rounding
  function \<open>rnd\<close> applied to the result of every arithmetic operation, in the order in which
  the source performs them (\<open>expf\<close> stands for the library's exponential on floats;
  comparisons do not round). With \<open>rnd\<close> the identity these are the exact functions
  above; with \<open>rnd = round_f32\<close> they are the single-precision computation.
\<close>

definition accumulate_rounded :: "(real \<Rightarrow> real) \<Rightarrow> Vector \<Rightarrow> real \<Rightarrow> real" where
  "accumulate_rounded rnd xs init = fold (\<lambda>x acc. rnd (acc + x)) xs init"

definition expScores_rounded :: "(real \<Rightarrow> real) \<Rightarrow> (real \<Rightarrow> real) \<Rightarrow> Vector \<Rightarrow> Vector" where
  "expScores_rounded rnd expf scores =
     map (\<lambda>score. expf (rnd (score - max_element scores))) scores"

definition softmax_rounded :: "(real \<Rightarrow> real) \<Rightarrow> (real \<Rightarrow> real) \<Rightarrow> Vector \<Rightarrow> Vector" where
  "softmax_rounded rnd expf scores =
     map (\<lambda>i. rnd (expScores_rounded rnd expf scores ! i
                    / accumulate_rounded rnd (expScores_rounded rnd expf scores) 0))
         [0..<length scores]"

text \<open>\<^verbatim>\<open>input.size()\<close> is converted to \<^verbatim>\<open>float\<close> before the division.\<close>

definition layerNorm_mean_rounded :: "(real \<Rightarrow> real) \<Rightarrow> Vector \<Rightarrow> real" where
  "layerNorm_mean_rounded rnd input =
     rnd (accumulate_rounded rnd input 0 / rnd (real (length input)))"

definition layerNorm_variance_rounded :: "(real \<Rightarrow> real) \<Rightarrow> Vector \<Rightarrow> real" where
  "layerNorm_variance_rounded rnd input =
     rnd (fold (\<lambda>val variance.
                  rnd (variance + rnd (rnd (val - layerNorm_mean_rounded rnd input)
                                       * rnd (val - layerNorm_mean_rounded rnd input))))
               input 0
          / rnd (real (length input)))"

definition layerNorm_rounded ::
  "(real \<Rightarrow> real) \<Rightarrow> Vector \<Rightarrow> Vector \<Rightarrow> Vector \<Rightarrow> real \<Rightarrow> Vector" where
  "layerNorm_rounded rnd input gamma beta epsilon =
     map (\<lambda>i. rnd (rnd (rnd (gamma ! i * rnd (input ! i - layerNorm_mean_rounded rnd input))
                         / rnd (sqrt (rnd (layerNorm_variance_rounded rnd input + epsilon))))
                    + beta ! i))
         [0..<length input]"












subsection \<open>Single precision\<close>

text \<open>
  IEEE 754 binary32, round to nearest, ties to even: a value in the binade
  \<open>[2^e, 2^(e+1))\<close> is rounded to a multiple of \<open>2^(e-23)\<close>; below \<open>2^(-126)\<close> the spacing
  stays \<open>2^(-149)\<close>. \<open>binade\<close> searches the exponent from \<open>127\<close> down to \<open>-126\<close>. Overflow to
  infinity is not modelled: the function stands for the float operation on results of
  magnitude below \<open>2^128\<close>.
\<close>

definition rne :: "real \<Rightarrow> int" where
  "rne x = (let f = \<lfloor>x\<rfloor>; r = x - of_int f
            in if r < 1 / 2 then f else if 1 / 2 < r then f + 1
               else if even f then f else f + 1)"

fun binade_search :: "nat \<Rightarrow> int \<Rightarrow> real \<Rightarrow> int" where
  "binade_search 0 e x = e"
| "binade_search (Suc n) e x = (if 2 powi e \<le> \<bar>x\<bar> then e else binade_search n (e - 1) x)"

definition binade :: "real \<Rightarrow> int" where
  "binade x = binade_search 253 127 x"

definition round_f32 :: "real \<Rightarrow> real" where
  "round_f32 x = of_int (rne (x / 2 powi (binade x - 23))) * 2 powi (binade x - 23)"

text \<open>The default \<^verbatim>\<open>float epsilon = 1e-5\<close>: the single-precision number nearest to \<open>1/100000\<close>.\<close>

definition epsilon_f32 :: real where
  "epsilon_f32 = 10995116 / 2 ^ 40"

text \<open>
  \<^verbatim>\<open>std::exp\<close> on a \<^verbatim>\<open>float\<close>: the exponential, rounded to single precision. Of the library's
  function the theorems use only that it is \<open>1\<close> at \<open>0\<close>, never negative, and \<open>0\<close> on
  arguments so negative that the exponential lies below the smallest float.
\<close>

definition expf_f32 :: "real \<Rightarrow> real" where
  "expf_f32 x = round_f32 (exp x)"



subsection \<open>Results in the range of a float\<close>

text \<open>
  An exact result of magnitude \<open>2^128 - 2^103\<close> or more rounds to an infinity, and the
  operations on it that follow can give NaN, which equals nothing. \<open>round_f32\<close> is the float
  operation on the other results. The predicates below say, for the loops of the functions
  above, that every product, sum and quotient of a computation is such a result before it
  is rounded; they are the hypothesis under which a theorem about \<open>round_f32\<close>
  speaks of the value the code returns.
\<close>

definition f32_in_range :: "real \<Rightarrow> bool" where
  "f32_in_range x = (\<bar>x\<bar> < 2 ^ 128 - 2 ^ 103)"

text \<open>The running sum \<open>acc = acc + x\<close> over a list.\<close>

fun sum_in_range :: "Vector \<Rightarrow> real \<Rightarrow> bool" where
  "sum_in_range [] acc = True"
| "sum_in_range (x # xs) acc = (f32_in_range (acc + x) \<and> sum_in_range xs (round_f32 (acc + x)))"




text \<open>
  \<open>layerNorm\<close>: the running sum and the mean, the deviations and their squares, the sum of
  the squares and the variance, \<open>variance + epsilon\<close>, and for every entry the product with
  \<open>gamma\<close>, the quotient and the sum with \<open>beta\<close>.
\<close>

definition layerNorm_in_range :: "Vector \<Rightarrow> Vector \<Rightarrow> Vector \<Rightarrow> real \<Rightarrow> bool" where
  "layerNorm_in_range input gamma beta epsilon =
     (let m = layerNorm_mean_rounded round_f32 input;
          sq = map (\<lambda>val. round_f32 (round_f32 (val - m) * round_f32 (val - m))) input;
          d = round_f32 (sqrt (round_f32 (layerNorm_variance_rounded round_f32 input + epsilon)))
      in sum_in_range input 0
         \<and> f32_in_range (accumulate_rounded round_f32 input 0 / round_f32 (real (length input)))
         \<and> list_all (\<lambda>val. f32_in_range (val - m)
                             \<and> f32_in_range (round_f32 (val - m) * round_f32 (val - m))) input
         \<and> sum_in_range sq 0
         \<and> f32_in_range (accumulate_rounded round_f32 sq 0 / round_f32 (real (length input)))
         \<and> f32_in_range (layerNorm_variance_rounded round_f32 input + epsilon)
         \<and> list_all (\<lambda>i. f32_in_range (gamma ! i * round_f32 (input ! i - m))
                           \<and> f32_in_range (round_f32 (gamma ! i * round_f32 (input ! i - m)) / d)
                           \<and> f32_in_range
                               (round_f32 (round_f32 (gamma ! i * round_f32 (input ! i - m)) / d)
                                + beta ! i))
                    [0..<length input])"


section \<open>Concrete objects and loop invariants used below\<close>

text \<open>A generator whose every draw gives \<^verbatim>\<open>(float)rand() / RAND_MAX - 0.5 = 0\<close>.\<close>

definition zero_rand :: rand_source where
  "zero_rand n = 0"

text \<open>The \<^verbatim>\<open>headDim\<close> of the object a constructor call returns, or its error.\<close>

definition constructed_headDim :: "error + MultiHeadSelfAttention \<times> rand_source \<Rightarrow> error + int" where
  "constructed_headDim r = map_sum id (\<lambda>p. headDim (fst p)) r"

text \<open>
  An attention module of embedding dimension one with one head; its four weights lie in
  the range \<open>[-0.5, 0.5]\<close> of \<open>initializeMatrix\<close>.
\<close>

definition tiny_attention :: MultiHeadSelfAttention where
  "tiny_attention = \<lparr>embeddingDim = 1, numHeads = 1, headDim = 1,
      W_Q = [[1 / 2]], W_K = [[- 1 / 2]], W_V = [[1 / 2]], W_O = [[1 / 2]]\<rparr>"

definition unit_layer :: EncoderLayer where
  "unit_layer = \<lparr>selfAttention = tiny_attention,
      ffn = \<lparr>W1 = [[1 / 2]], W2 = [[1 / 2]], B1 = [0], B2 = [0], inputDim = 1, hiddenDim = 1\<rparr>,
      ln1_gamma = [1], ln1_beta = [0], ln2_gamma = [1], ln2_beta = [0],
      enc_embeddingDim = 1\<rparr>"

text \<open>
  A model state with no vocabulary, no layers and no weights: past the early return,
  \<open>predictNextWord\<close> would index its empty matrices.
\<close>

definition unbuilt_transformer :: Transformer where
  "unbuilt_transformer =
     \<lparr>tokenizer = \<lparr>wordToIndex = Map.empty, indexToWord = Map.empty, vocabSize = 0\<rparr>,
      embeddings = \<lparr>wordEmbeddings = [], positionalEncodings = [], emb_embeddingDim = 0,
                     maxSequenceLength = 0\<rparr>,
      encoder = [], decoder = [], outputLayerWeights = [],
      tr_embeddingDim = 0, tr_vocabSize = 0\<rparr>"


text \<open>A number of scores past \<open>2^24\<close>, where a float running sum of ones stops growing.\<close>

definition many_scores :: nat where
  "many_scores = 2 ^ 25"

section \<open>Facts about the utilities\<close>

lemma accumulate_sum_list: "accumulate xs a = a + sum_list xs"
  unfolding accumulate_def by (induction xs arbitrary: a) (simp_all add: add.assoc)

lemma fold_running_max: "fold (\<lambda>x largest. if largest < x then x else largest) xs (m::real) = fold max xs m"
proof -
  have "(\<lambda>x largest. if largest < x then x else largest) = (max :: real \<Rightarrow> real \<Rightarrow> real)"
    by (intro ext) (simp add: max_def not_less)
  then show ?thesis by simp
qed

lemma max_element_Max: "xs \<noteq> [] \<Longrightarrow> max_element xs = Max (set xs)"
proof (cases xs)
  case Nil
  assume "xs \<noteq> []"
  with Nil show ?thesis by simp
next
  case (Cons x ys)
  then show ?thesis
    by (simp only: max_element_def list.sel fold_running_max Max.set_eq_fold)
qed

lemma max_element_mem: "xs \<noteq> [] \<Longrightarrow> max_element xs \<in> set xs"
proof -
  assume ne: "xs \<noteq> []"
  then have "Max (set xs) \<in> set xs" by (intro Max_in) simp_all
  with ne show ?thesis by (simp add: max_element_Max)
qed

lemma length_expScores: "length (expScores xs) = length xs"
  by (simp add: expScores_def)

lemma expScores_nth: "i < length xs \<Longrightarrow> expScores xs ! i = exp (xs ! i - max_element xs)"
  by (simp add: expScores_def)

lemma sumExpScores_sum_list: "sumExpScores xs = sum_list (expScores xs)"
  by (simp add: sumExpScores_def accumulate_sum_list)

lemma sumExpScores_ge_1:
  assumes "xs \<noteq> []"
  shows "1 \<le> sumExpScores xs"
proof -
  have mem: "max_element xs \<in> set xs" using assms by (rule max_element_mem)
  have one: "exp (max_element xs - max_element xs) \<in> set (expScores xs)"
    using mem by (auto simp: expScores_def image_iff intro: bexI[where x = "max_element xs"])
  have nonneg: "\<And>y. y \<in> set (expScores xs) \<Longrightarrow> 0 \<le> y"
    by (auto simp: expScores_def)
  have "exp (max_element xs - max_element xs) \<le> sum_list (expScores xs)"
    using one nonneg by (intro member_le_sum_list) auto
  then show ?thesis by (simp add: sumExpScores_sum_list)
qed


lemma softmax_nth:
  "i < length xs \<Longrightarrow> softmax xs ! i = exp (xs ! i - max_element xs) / sumExpScores xs"
  by (simp add: softmax_def expScores_nth)

lemma softmax_map: "softmax xs = map (\<lambda>e. e / sumExpScores xs) (expScores xs)"
  by (intro nth_equalityI) (simp_all add: softmax_def length_expScores)

lemma sum_list_softmax:
  assumes "xs \<noteq> []"
  shows "sum_list (softmax xs) = 1"
proof -
  have pos: "sumExpScores xs \<noteq> 0" using sumExpScores_ge_1[OF assms] by simp
  have "sum_list (softmax xs) = (\<Sum>e\<leftarrow>expScores xs. e / sumExpScores xs)"
    by (simp add: softmax_map)
  also have "\<dots> = sum_list (expScores xs) / sumExpScores xs"
    by (simp add: divide_inverse sum_list_mult_const)
  also have "\<dots> = 1" using pos by (simp add: sumExpScores_sum_list)
  finally show ?thesis .
qed


lemma accumulate_rounded_exact: "accumulate_rounded (\<lambda>x. x) xs a = accumulate xs a"
  by (simp add: accumulate_rounded_def accumulate_def)

lemma softmax_rounded_exact: "softmax_rounded (\<lambda>x. x) exp scores = softmax scores"
  by (simp add: softmax_rounded_def softmax_def expScores_rounded_def expScores_def
      sumExpScores_def accumulate_rounded_exact)

section \<open>Layer normalisation\<close>

lemma fold_squares:
  "fold (\<lambda>val variance. variance + (val - m) * (val - m)) xs (a::real)
     = a + (\<Sum>x\<leftarrow>xs. (x - m)\<^sup>2)"
  by (induction xs arbitrary: a) (simp_all add: power2_eq_square add.assoc)

lemma layerNorm_mean_arithmetic: "layerNorm_mean v = arithmetic_mean v"
  by (simp add: layerNorm_mean_def arithmetic_mean_def accumulate_sum_list)

lemma layerNorm_variance_population: "layerNorm_variance v = population_variance v"
  by (simp add: layerNorm_variance_def population_variance_def fold_squares
      layerNorm_mean_arithmetic)

lemma length_layerNorm: "length (layerNorm input gamma beta eps) = length input"
  by (simp add: layerNorm_def)

lemma constant_list: "(\<forall>x \<in> set v. x = c) \<Longrightarrow> v = replicate (length v) c"
  by (induction v) auto

lemma arithmetic_mean_constant:
  assumes "v \<noteq> []" and "\<forall>x \<in> set v. x = c"
  shows "arithmetic_mean v = c"
proof -
  have "v = replicate (length v) c" using assms(2) by (rule constant_list)
  then have "sum_list v = real (length v) * c"
    by (metis sum_list_replicate)
  then show ?thesis using assms(1) by (simp add: arithmetic_mean_def)
qed

lemma population_variance_constant:
  assumes "v \<noteq> []" and "\<forall>x \<in> set v. x = c"
  shows "population_variance v = 0"
proof -
  have m: "arithmetic_mean v = c" using assms by (rule arithmetic_mean_constant)
  have "map (\<lambda>x. (x - c)\<^sup>2) v = map (\<lambda>x. 0) v"
    using assms(2) by (intro map_cong) simp_all
  then have "(\<Sum>x\<leftarrow>v. (x - c)\<^sup>2) = (\<Sum>x\<leftarrow>v. 0)"
    by (rule arg_cong)
  then have "(\<Sum>x\<leftarrow>v. (x - c)\<^sup>2) = 0"
    by (simp only: sum_list_0)
  then show ?thesis by (simp only: population_variance_def m div_0)
qed

text \<open>
  In exact arithmetic a constant input has mean \<open>c\<close>, variance zero and result \<open>beta\<close>.
\<close>

lemma layerNorm_exact_constant_input:
  assumes "input \<noteq> []" and "\<forall>x \<in> set input. x = c"
    and "length gamma = length input" and "length beta = length input"
  shows "layerNorm_variance input = 0
       \<and> 0 < sqrt (layerNorm_variance input + default_epsilon)
       \<and> layerNorm input gamma beta default_epsilon = beta"
proof -
  have m: "layerNorm_mean input = c"
    using assms(1,2) by (simp add: layerNorm_mean_arithmetic arithmetic_mean_constant)
  have v: "layerNorm_variance input = 0"
    using assms(1,2) by (simp add: layerNorm_variance_population population_variance_constant)
  have "layerNorm input gamma beta default_epsilon = beta"
  proof (intro nth_equalityI)
    show "length (layerNorm input gamma beta default_epsilon) = length beta"
      using assms(4) by (simp add: length_layerNorm)
  next
    fix i assume "i < length (layerNorm input gamma beta default_epsilon)"
    then have i: "i < length input" by (simp add: length_layerNorm)
    then have "input ! i = c" using assms(2) by simp
    then show "layerNorm input gamma beta default_epsilon ! i = beta ! i"
      using i by (simp add: layerNorm_def m)
  qed
  then show ?thesis using v by (simp add: default_epsilon_def)
qed

lemma layerNorm_mean_rounded_exact: "layerNorm_mean_rounded (\<lambda>x. x) input = layerNorm_mean input"
  by (simp add: layerNorm_mean_rounded_def layerNorm_mean_def accumulate_rounded_exact)

lemma layerNorm_variance_rounded_exact:
  "layerNorm_variance_rounded (\<lambda>x. x) input = layerNorm_variance input"
  by (simp add: layerNorm_variance_rounded_def layerNorm_variance_def layerNorm_mean_rounded_exact)

lemma layerNorm_rounded_exact:
  "layerNorm_rounded (\<lambda>x. x) input gamma beta epsilon = layerNorm input gamma beta epsilon"
  by (simp add: layerNorm_rounded_def layerNorm_def layerNorm_mean_rounded_exact
      layerNorm_variance_rounded_exact)

section \<open>Layer normalisation in single precision\<close>

lemma binade_search_eq:
  assumes "2 powi k \<le> \<bar>x\<bar>" and "\<bar>x\<bar> < 2 powi (k + 1)" and "k \<le> e" and "e - int n \<le> k"
  shows "binade_search n e x = k"
  using assms(3,4)
proof (induction n arbitrary: e)
  case 0
  then show ?case by simp
next
  case (Suc n)
  show ?case
  proof (cases "2 powi e \<le> \<bar>x\<bar>")
    case True
    then have lt: "(2::real) powi e < 2 powi (k + 1)" using assms(2) by simp
    have "e < k + 1"
    proof (rule ccontr)
      assume "\<not> e < k + 1"
      then have "(2::real) powi (k + 1) \<le> 2 powi e"
        by (intro power_int_increasing) simp_all
      with lt show False by simp
    qed
    with Suc.prems True show ?thesis by simp
  next
    case False
    then have "e \<noteq> k" using assms(1) by auto
    with Suc.prems have "k \<le> e - 1" and "e - 1 - int n \<le> k" by simp_all
    from Suc.IH[OF this] False show ?thesis by simp
  qed
qed

lemma binade_search_low:
  assumes "\<bar>x\<bar> < 2 powi (e - int n + 1)"
  shows "binade_search n e x = e - int n"
  using assms
proof (induction n arbitrary: e)
  case 0
  then show ?case by simp
next
  case (Suc n)
  have "(2::real) powi (e - int (Suc n) + 1) \<le> 2 powi e"
    by (intro power_int_increasing) simp_all
  then have "\<not> 2 powi e \<le> \<bar>x\<bar>" using Suc.prems by simp
  moreover have "binade_search n (e - 1) x = e - 1 - int n"
    using Suc.prems by (intro Suc.IH) (simp add: algebra_simps)
  ultimately show ?case by simp
qed

lemma binade_eq:
  assumes "2 powi k \<le> \<bar>x\<bar>" and "\<bar>x\<bar> < 2 powi (k + 1)" and "- 126 \<le> k" and "k \<le> 127"
  shows "binade x = k"
  unfolding binade_def using assms by (intro binade_search_eq) simp_all

lemma binade_0: "binade 0 = - 126"
  unfolding binade_def using binade_search_low[of 0 127 253] by simp

lemma round_f32_0: "round_f32 0 = 0"
  by (simp add: round_f32_def rne_def)

lemma round_f32_eval:
  assumes "2 powi k \<le> \<bar>x\<bar>" and "\<bar>x\<bar> < 2 powi (k + 1)" and "- 126 \<le> k" and "k \<le> 127"
  shows "round_f32 x = of_int (rne (x / 2 powi (k - 23))) * 2 powi (k - 23)"
  by (simp add: round_f32_def binade_eq[OF assms])

lemma rne_eq: "of_int m - 1 / 2 < x \<Longrightarrow> x < of_int m + 1 / 2 \<Longrightarrow> rne x = m"
proof -
  assume a: "of_int m - 1 / 2 < x" and b: "x < of_int m + 1 / 2"
  show ?thesis
  proof (cases "of_int m \<le> x")
    case True
    then have "\<lfloor>x\<rfloor> = m" using b by (intro floor_unique) simp_all
    then show ?thesis using b by (simp add: rne_def)
  next
    case False
    then have "\<lfloor>x\<rfloor> = m - 1" using a by (intro floor_unique) simp_all
    then show ?thesis using a False by (simp add: rne_def)
  qed
qed

lemma epsilon_f32_nearest: "round_f32 (1 / 100000) = epsilon_f32"
  using round_f32_eval[of "- 17" "1 / 100000"] by (simp add: rne_def epsilon_f32_def)


lemma sqrt_eps_bounds:
  "13581879 / 4294967296 - 1 / 8589934592 < sqrt (2748779 / 274877906944)"
  "sqrt (2748779 / 274877906944) < 13581879 / 4294967296 + 1 / 8589934592"
  by (rule real_less_rsqrt, simp add: power2_eq_square)
     (rule real_less_lsqrt, simp_all add: power2_eq_square)

lemma r_sqrt: "round_f32 (sqrt (2748779 / 274877906944)) = 13581879 / 4294967296"
proof -
  let ?y = "sqrt (2748779 / 274877906944 :: real)"
  have lo: "2 powi (- 9) \<le> \<bar>?y\<bar>" using sqrt_eps_bounds(1) by simp
  have hi: "\<bar>?y\<bar> < 2 powi (- 9 + 1)" using sqrt_eps_bounds(2) by simp
  have "rne (?y / 2 powi (- 9 - 23)) = 13581879"
    using sqrt_eps_bounds by (intro rne_eq) simp_all
  then show ?thesis using round_f32_eval[OF lo hi] by simp
qed



lemma r_4: "round_f32 4 = 4"
  using round_f32_eval[of 2 4] by (simp add: rne_def)


lemma r_2: "round_f32 2 = 2"
  using round_f32_eval[of 1 2] by (simp add: rne_def)



lemma r_c: "round_f32 (6291457 / 4194304) = 6291457 / 4194304"
  using round_f32_eval[of 0 "6291457 / 4194304"] by (simp add: rne_def)

lemma r_2c: "round_f32 (6291457 / 2097152) = 6291457 / 2097152"
  using round_f32_eval[of 1 "6291457 / 2097152"] by (simp add: rne_def)

lemma r_3c: "round_f32 (18874371 / 4194304) = 4718593 / 1048576"
  using round_f32_eval[of 2 "18874371 / 4194304"] by (simp add: rne_def)

lemma r_3: "round_f32 3 = 3"
  using round_f32_eval[of 1 3] by (simp add: rne_def)

lemma r_mean: "round_f32 (4718593 / 3145728) = 12582915 / 8388608"
  using round_f32_eval[of 0 "4718593 / 3145728"] by (simp add: rne_def)

lemma mean_f32:
  "layerNorm_mean_rounded round_f32 [6291457 / 4194304, 6291457 / 4194304, 6291457 / 4194304]
     = 12582915 / 8388608"
  by (simp add: layerNorm_mean_rounded_def accumulate_rounded_def r_c r_2c r_3c r_3 r_mean)

lemma r_dev: "round_f32 (- (1 / 8388608)) = - (1 / 8388608)"
  using round_f32_eval[of "- 23" "- (1 / 8388608)"] by (simp add: rne_def)

lemma r_sq: "round_f32 (1 / 70368744177664) = 1 / 70368744177664"
  using round_f32_eval[of "- 46" "1 / 70368744177664"] by (simp add: rne_def)

lemma r_2sq: "round_f32 (1 / 35184372088832) = 1 / 35184372088832"
  using round_f32_eval[of "- 45" "1 / 35184372088832"] by (simp add: rne_def)

lemma r_3sq: "round_f32 (3 / 70368744177664) = 3 / 70368744177664"
  using round_f32_eval[of "- 45" "3 / 70368744177664"] by (simp add: rne_def)

lemma variance_f32:
  "layerNorm_variance_rounded round_f32 [6291457 / 4194304, 6291457 / 4194304, 6291457 / 4194304]
     = 1 / 70368744177664"
  by (simp add: layerNorm_variance_rounded_def mean_f32 r_dev r_sq r_2sq r_3sq r_3)

lemma r_var_eps: "round_f32 (703687425 / 70368744177664) = 2748779 / 274877906944"
  using round_f32_eval[of "- 17" "703687425 / 70368744177664"]
  by (simp add: rne_def)

lemma r_q: "round_f32 (- (512 / 13581879)) = - (1295269 / 34359738368)"
  using round_f32_eval[of "- 15" "- (512 / 13581879)"] by (simp add: rne_def)

lemma r_out: "round_f32 (- (1295269 / 34359738368)) = - (1295269 / 34359738368)"
  using round_f32_eval[of "- 15" "- (1295269 / 34359738368)"] by (simp add: rne_def)

lemma layerNorm_f32_value:
  "layerNorm_rounded round_f32
      [6291457 / 4194304, 6291457 / 4194304, 6291457 / 4194304] [1, 1, 1] [0, 0, 0]
      (2748779 / 274877906944)
    = [- (1295269 / 34359738368), - (1295269 / 34359738368), - (1295269 / 34359738368)]"
  by (simp add: layerNorm_rounded_def mean_f32 variance_f32 r_dev r_var_eps r_sqrt r_q r_out)

section \<open>Construction\<close>

text \<open>
  Claim C1. The decoder layer never reads \<open>encoderOutput\<close>: its second attention step is
  the self-attention \<^verbatim>\<open>encoderDecoderAttention.forward(output1)\<close>, which takes query, key and
  value from the step-1 output. Two encoder outputs therefore give the same result, so
  the output does not depend on \<open>encoderOutput\<close>, against the comment in the source that
  keys and values come from it.
\<close>

theorem DecoderLayer_forward_ignores_encoderOutput:
  "DecoderLayer_forward l targetInput encoderOutput
     = DecoderLayer_forward l targetInput encoderOutput'"
  by (simp add: DecoderLayer_forward_def)

text \<open>
  Claim C3, as the code has it. The constructor makes no divisibility check: for any
  non-negative embedding dimension and any non-zero head count it returns an object, whose
  \<^verbatim>\<open>headDim\<close> is the truncated quotient.
\<close>

theorem constructor_accepts_any_head_count:
  assumes "0 \<le> embedDim" and "nHeads \<noteq> 0"
  shows "\<exists>m r. MultiHeadSelfAttention_new rnd embedDim nHeads = Inr (m, r)
           \<and> embeddingDim m = embedDim \<and> numHeads m = nHeads
           \<and> headDim m = embedDim sdiv nHeads"
  using assms by (simp add: MultiHeadSelfAttention_new_def initializeMatrix_def)

theorem constructor_accepts_any_head_count_witness:
  "(0::int) \<le> 5 \<and> (2::int) \<noteq> 0
   \<and> (\<exists>m r. MultiHeadSelfAttention_new zero_rand 5 2 = Inr (m, r)
           \<and> embeddingDim m = 5 \<and> numHeads m = 2 \<and> headDim m = 2)"
  using constructor_accepts_any_head_count[of 5 2 zero_rand]
  by (simp add: signed_divide_int_def)

text \<open>
  Claim C3 as stated fails: with \<^verbatim>\<open>embeddingDim = 5\<close> and \<^verbatim>\<open>numHeads = 2\<close> the constructor
  returns an object, with \<^verbatim>\<open>headDim = 2\<close>.
\<close>

theorem constructor_5_2_succeeds:
  "constructed_headDim (MultiHeadSelfAttention_new zero_rand 5 2) = Inr 2"
  by (simp add: constructed_headDim_def MultiHeadSelfAttention_new_def initializeMatrix_def
      signed_divide_int_def)

section \<open>Prediction\<close>

lemma extract_words_blank:
  "\<forall>c \<in> set s. isspace c \<Longrightarrow> extract_words [] s = []"
  by (induction s) simp_all

lemma extract_words_nonempty_cur: "cur \<noteq> [] \<Longrightarrow> extract_words cur s \<noteq> []"
  by (induction s arbitrary: cur) simp_all

lemma extract_words_empty_iff:
  "extract_words [] s = [] \<longleftrightarrow> (\<forall>c \<in> set s. isspace c)"
  by (induction s) (simp_all add: extract_words_nonempty_cur)

text \<open>
  Claim C8. A sentence of white space only (the empty sentence included) has no tokens, and
  \<open>predictNextWord\<close> returns the empty string for it, whatever the state of the model: the
  encoder, the weights and the vocabulary are not consulted.
\<close>

theorem predictNextWord_no_tokens:
  assumes "\<forall>c \<in> set sentence. isspace c"
  shows "tokens_of sentence = [] \<and> predictNextWord t sentence = ''''"
  using assms by (simp add: predictNextWord_def tokens_of_def extract_words_blank)

theorem predictNextWord_no_tokens_witness:
  "isspace (CHR '' '') \<and> tokens_of ''  '' = []
   \<and> predictNextWord unbuilt_transformer ''  '' = ''''"
  using predictNextWord_no_tokens[of "''  ''" unbuilt_transformer] by (simp add: isspace_def)





lemma predictNextWord_selects:
  assumes "tokens_of sentence \<noteq> []"
  shows "predictNextWord t sentence
       = (let encoderOutput = Encoder_forward (encoder t) (encoderInput t (tokens_of sentence));
              logits = matMul (encoderOutput ! (length encoderOutput - 1)) (outputLayerWeights t)
          in decode (tokenizer t) (int (predictedIndex (softmax logits))))"
  using assms by (simp add: predictNextWord_def Let_def)




section \<open>The encoder layer\<close>

lemma length_add: "length (add a b) = length a"
  by (simp add: add_def)

lemma length_matMul: "length (matMul vec matrix) = length (matrix ! 0)"
  by (simp add: matMul_def)

lemma is_matrix_nth: "is_matrix r c M \<Longrightarrow> i < r \<Longrightarrow> length (M ! i) = c"
  by (simp add: is_matrix_def list_all_length)

lemma length_MultiHeadSelfAttention_forward:
  "length (MultiHeadSelfAttention_forward m input masked) = length input"
  by (simp add: MultiHeadSelfAttention_forward_def Let_def)

lemma MultiHeadSelfAttention_forward_shape:
  assumes "length (W_O m ! 0) = E"
  shows "is_matrix (length input) E (MultiHeadSelfAttention_forward m input masked)"
  using assms
  by (simp add: MultiHeadSelfAttention_forward_def Let_def is_matrix_def list_all_iff
      length_matMul)

lemma EncoderLayer_output1_nth:
  "i < length input \<Longrightarrow>
   EncoderLayer_output1 l input ! i
     = layerNorm (add (input ! i) (MultiHeadSelfAttention_forward (selfAttention l) input False ! i))
         (ln1_gamma l) (ln1_beta l) default_epsilon"
  by (simp add: EncoderLayer_output1_def Let_def)

lemma EncoderLayer_forward_nth:
  "i < length input \<Longrightarrow>
   EncoderLayer_forward l input ! i
     = layerNorm (add (EncoderLayer_output1 l input ! i)
                      (FeedForwardNetwork_forward (ffn l) (EncoderLayer_output1 l input ! i)))
         (ln2_gamma l) (ln2_beta l) default_epsilon"
  by (simp add: EncoderLayer_forward_def Let_def)

text \<open>
  Claim C9. For an input of \<open>seqLen\<close> rows of \<open>E\<close> entries, \<open>EncoderLayer_forward\<close> returns
  \<open>seqLen\<close> rows of \<open>E\<close> entries; row \<open>i\<close> of the intermediate \<^verbatim>\<open>output1\<close> is the layer norm
  (first parameters) of the input row plus row \<open>i\<close> of the unmasked self-attention, and row
  \<open>i\<close> of the result is the layer norm (second parameters) of that row plus its feed-forward
  image. This holds for every layer, so in particular for one whose head count divides
  the embedding dimension.
\<close>

theorem EncoderLayer_forward_shape_and_value:
  assumes "is_matrix seqLen E input"
  shows "is_matrix seqLen E (EncoderLayer_forward l input)
       \<and> (\<forall>i < seqLen.
             EncoderLayer_output1 l input ! i
               = layerNorm (add (input ! i)
                     (MultiHeadSelfAttention_forward (selfAttention l) input False ! i))
                   (ln1_gamma l) (ln1_beta l) default_epsilon
           \<and> EncoderLayer_forward l input ! i
               = layerNorm (add (EncoderLayer_output1 l input ! i)
                     (FeedForwardNetwork_forward (ffn l) (EncoderLayer_output1 l input ! i)))
                   (ln2_gamma l) (ln2_beta l) default_epsilon)"
proof -
  have len: "length input = seqLen" using assms by (simp add: is_matrix_def)
  have row: "\<And>i. i < seqLen \<Longrightarrow> length (input ! i) = E"
    using assms by (rule is_matrix_nth)
  have "length (EncoderLayer_forward l input) = seqLen"
    by (simp add: EncoderLayer_forward_def Let_def len)
  moreover have "\<And>i. i < seqLen \<Longrightarrow> length (EncoderLayer_forward l input ! i) = E"
    by (simp add: EncoderLayer_forward_nth EncoderLayer_output1_nth len length_layerNorm
        length_add row)
  ultimately have "is_matrix seqLen E (EncoderLayer_forward l input)"
    by (simp add: is_matrix_def list_all_length)
  then show ?thesis
    by (simp add: EncoderLayer_forward_nth EncoderLayer_output1_nth len)
qed

theorem EncoderLayer_forward_shape_and_value_witness:
  "is_matrix 2 1 [[1], [2]] \<and> is_matrix 2 1 (EncoderLayer_forward unit_layer [[1], [2]])"
  using EncoderLayer_forward_shape_and_value[of 2 1 "[[1], [2]]" unit_layer]
  by (simp add: is_matrix_def)

section \<open>Rows of the mask and of the head loop\<close>












section \<open>Single-precision rounding\<close>

lemma binade_search_bounds:
  assumes "2 powi k \<le> \<bar>x\<bar>" and "k \<le> e" and "e - int n \<le> k"
  shows "k \<le> binade_search n e x \<and> 2 powi (binade_search n e x) \<le> \<bar>x\<bar>"
  using assms(2,3)
proof (induction n arbitrary: e)
  case 0
  then have "e = k" by simp
  then show ?case using assms(1) by simp
next
  case (Suc n)
  show ?case
  proof (cases "2 powi e \<le> \<bar>x\<bar>")
    case True
    then show ?thesis using Suc.prems by simp
  next
    case False
    then have "e \<noteq> k" using assms(1) by auto
    with Suc.prems have "k \<le> e - 1" and "e - 1 - int n \<le> k" by simp_all
    from Suc.IH[OF this] False show ?thesis by simp
  qed
qed

lemma binade_bounds:
  assumes "2 powi k \<le> \<bar>x\<bar>" and "- 126 \<le> k" and "k \<le> 127"
  shows "k \<le> binade x" and "2 powi (binade x) \<le> \<bar>x\<bar>"
  using binade_search_bounds[OF assms(1), of 127 253] assms(2,3)
  by (simp_all add: binade_def)

lemma rne_ge_floor: "\<lfloor>x\<rfloor> \<le> rne x"
  by (simp add: rne_def Let_def)


lemma rne_of_int: "rne (of_int m) = m"
  by (simp add: rne_def)

lemma round_f32_nonneg:
  assumes "0 \<le> x"
  shows "0 \<le> round_f32 x"
proof -
  have "0 \<le> x / 2 powi (binade x - 23)" using assms by simp
  then have "0 \<le> \<lfloor>x / 2 powi (binade x - 23)\<rfloor>" by simp
  then have "0 \<le> rne (x / 2 powi (binade x - 23))"
    using rne_ge_floor[of "x / 2 powi (binade x - 23)"] by linarith
  then show ?thesis by (simp add: round_f32_def)
qed

lemma power_int_split: "(2::real) powi b = 2 ^ 23 * 2 powi (b - 23)"
proof -
  have "(2::real) powi b = 2 powi (23 + (b - 23))" by simp
  also have "\<dots> = 2 powi 23 * 2 powi (b - 23)" by (subst power_int_add) simp_all
  finally show ?thesis by simp
qed

lemma round_f32_ge_power:
  assumes "2 powi k \<le> x" and "- 126 \<le> k" and "k \<le> 127"
  shows "2 powi k \<le> round_f32 x"
proof -
  have pos: "0 < x" using assms(1) by (rule less_le_trans[rotated]) simp
  then have ax: "\<bar>x\<bar> = x" by simp
  let ?b = "binade x"
  have kb: "k \<le> ?b" and bx: "2 powi ?b \<le> x"
    using binade_bounds[of k x] assms by (simp_all add: ax)
  let ?u = "(2::real) powi (?b - 23)"
  have u: "0 < ?u" by simp
  have "2 ^ 23 * ?u \<le> x" using bx power_int_split[of ?b] by simp
  then have "2 ^ 23 \<le> x / ?u" using u by (simp add: pos_le_divide_eq)
  then have "(2 ^ 23 :: int) \<le> \<lfloor>x / ?u\<rfloor>" by (simp add: le_floor_iff)
  then have "(2 ^ 23 :: int) \<le> rne (x / ?u)" using rne_ge_floor[of "x / ?u"] by linarith
  then have "(2 ^ 23 :: real) \<le> of_int (rne (x / ?u))" by (metis of_int_le_iff of_int_numeral of_int_power)
  then have "2 ^ 23 * ?u \<le> of_int (rne (x / ?u)) * ?u" using u by simp
  then have "2 powi ?b \<le> round_f32 x"
    using power_int_split[of ?b] by (simp add: round_f32_def)
  moreover have "(2::real) powi k \<le> 2 powi ?b" using kb by (intro power_int_increasing) simp_all
  ultimately show ?thesis by linarith
qed



lemma r_1: "round_f32 1 = 1"
  using round_f32_eval[of 0 1] by (simp add: rne_def)

lemma expf_f32_0: "expf_f32 0 = 1"
  by (simp add: expf_f32_def r_1)

lemma expf_f32_nonneg: "0 \<le> expf_f32 y"
  by (simp add: expf_f32_def round_f32_nonneg)



lemma r_2p24: "round_f32 16777216 = 16777216"
  using round_f32_eval[of 24 "16777216"] by (simp add: rne_def)

lemma round_f32_nat_mid:
  assumes "2 ^ n \<le> k" and "k < 2 ^ (n + 1)" and "n \<le> 23"
  shows "round_f32 (real k) = real k"
proof -
  define m where "m = 23 - n"
  have e: "int n - 23 = - int m" using assms(3) by (simp add: m_def)
  have u: "(2::real) powi (int n - 23) = inverse (2 ^ m)"
    by (simp only: e power_int_minus power_int_of_nat)
  have "real (2 ^ n) \<le> real k" using assms(1) by (simp only: of_nat_le_iff)
  then have lo: "2 powi (int n) \<le> \<bar>real k\<bar>"
    by (simp only: power_int_of_nat of_nat_power of_nat_numeral abs_of_nat)
  have "real k < real (2 ^ (n + 1))" using assms(2) by (simp only: of_nat_less_iff)
  then have "real k < 2 ^ (n + 1)" by (simp only: of_nat_power of_nat_numeral)
  moreover have "(2::real) powi (int n + 1) = 2 ^ (n + 1)"
  proof -
    have "int n + 1 = int (n + 1)" by simp
    then show ?thesis by (simp only: power_int_of_nat)
  qed
  ultimately have hi: "\<bar>real k\<bar> < 2 powi (int n + 1)" by (simp only: abs_of_nat)
  have r1: "- 126 \<le> int n" by simp
  have r2: "int n \<le> 127" using assms(3) by simp
  have q: "real k / inverse (2 ^ m) = of_int (int k * 2 ^ m)"
    by (simp only: divide_inverse inverse_inverse_eq of_int_mult of_int_of_nat_eq
        of_int_power of_int_numeral)
  have "round_f32 (real k) = of_int (int k * 2 ^ m) * inverse (2 ^ m)"
    using round_f32_eval[OF lo hi r1 r2] by (simp only: u q rne_of_int)
  also have "\<dots> = real k * (2 ^ m * inverse (2 ^ m))"
    by (simp only: of_int_mult of_int_of_nat_eq of_int_power of_int_numeral mult.assoc)
  also have "\<dots> = real k" by simp
  finally show ?thesis .
qed

lemma round_f32_nat:
  assumes "k \<le> 2 ^ 24"
  shows "round_f32 (real k) = real k"
proof -
  consider "k = 0" | "k = 2 ^ 24" | "1 \<le> k" "k < 2 ^ 24" using assms by linarith
  then show ?thesis
  proof cases
    case 1
    then show ?thesis by (simp add: round_f32_0)
  next
    case 2
    have "real k = 16777216" unfolding 2 by simp
    then show ?thesis by (simp only: r_2p24)
  next
    case 3
    obtain n where n: "2 ^ n \<le> k" "k < 2 ^ (n + 1)"
      using ex_power_ivl1[of 2 k] 3(1) by auto
    have "(2::nat) ^ n < 2 ^ 24" using n(1) 3(2) by (rule le_less_trans)
    then have "n < 24" by (rule power_less_imp_less_exp[rotated]) simp
    then have "n \<le> 23" by simp
    with n show ?thesis by (rule round_f32_nat_mid)
  qed
qed

lemma r_2p24_1: "round_f32 16777217 = 16777216"
  using round_f32_eval[of 24 "16777217"] by (simp add: rne_def)

lemma rne_error: "\<bar>of_int (rne x) - x\<bar> \<le> 1 / 2"
proof -
  have "of_int \<lfloor>x\<rfloor> \<le> x" and "x < of_int \<lfloor>x\<rfloor> + 1" by linarith+
  then show ?thesis by (auto simp: rne_def Let_def)
qed

lemma round_f32_half_ulp: "\<bar>round_f32 x - x\<bar> \<le> 2 powi (binade x - 23) / 2"
proof -
  let ?s = "(2::real) powi (binade x - 23)"
  have s: "0 < ?s" by simp
  have "round_f32 x - x = (of_int (rne (x / ?s)) - x / ?s) * ?s"
    using s by (simp add: round_f32_def field_simps)
  then have "\<bar>round_f32 x - x\<bar> = \<bar>of_int (rne (x / ?s)) - x / ?s\<bar> * ?s"
    using s by (simp add: abs_mult)
  also have "\<dots> \<le> 1 / 2 * ?s"
    using rne_error[of "x / ?s"] s by (intro mult_right_mono) simp_all
  finally show ?thesis by simp
qed

lemma round_f32_error: "\<bar>round_f32 x - x\<bar> \<le> \<bar>x\<bar> / 2 ^ 24 + 1 / 2 ^ 150"
proof (cases "2 powi (- 126) \<le> \<bar>x\<bar>")
  case True
  then have "2 powi (binade x) \<le> \<bar>x\<bar>" using binade_bounds(2)[of "- 126" x] by simp
  then have "2 ^ 23 * 2 powi (binade x - 23) \<le> \<bar>x\<bar>"
    using power_int_split[of "binade x"] by simp
  then have "2 powi (binade x - 23) / 2 \<le> \<bar>x\<bar> / 2 ^ 24" by simp
  moreover have "(0::real) \<le> 1 / 2 ^ 150" by simp
  ultimately show ?thesis using round_f32_half_ulp[of x] by linarith
next
  case False
  then have "\<bar>x\<bar> < 2 powi (127 - int 253 + 1)" by simp
  then have "binade x = 127 - int 253" unfolding binade_def by (rule binade_search_low)
  then have b: "binade x - 23 = - 149" by simp
  have "(2::real) powi (- 149) / 2 = 1 / 2 ^ 150" by (simp add: power_int_minus field_simps)
  then have "\<bar>round_f32 x - x\<bar> \<le> 1 / 2 ^ 150"
    using round_f32_half_ulp[of x] unfolding b by simp
  moreover have "0 \<le> \<bar>x\<bar> / 2 ^ 24" by simp
  ultimately show ?thesis by linarith
qed

section \<open>Softmax in single precision\<close>

lemma accumulate_rounded_ge_1:
  assumes "\<forall>x \<in> set xs. 0 \<le> x" and "1 \<le> a"
  shows "1 \<le> accumulate_rounded round_f32 xs a"
  using assms
proof (induction xs arbitrary: a)
  case Nil
  then show ?case by (simp add: accumulate_rounded_def)
next
  case (Cons x xs)
  have "2 powi 0 \<le> a + x" using Cons.prems by simp
  then have "2 powi 0 \<le> round_f32 (a + x)" by (rule round_f32_ge_power) simp_all
  then have "1 \<le> round_f32 (a + x)" by simp
  moreover have "\<forall>y \<in> set xs. 0 \<le> y" using Cons.prems by simp
  ultimately have "1 \<le> accumulate_rounded round_f32 xs (round_f32 (a + x))" by (rule Cons.IH[rotated])
  then show ?case by (simp add: accumulate_rounded_def)
qed

lemma accumulate_rounded_ge_1_mem:
  assumes "\<forall>x \<in> set xs. 0 \<le> x" and "1 \<in> set xs" and "0 \<le> a"
  shows "1 \<le> accumulate_rounded round_f32 xs a"
  using assms
proof (induction xs arbitrary: a)
  case Nil
  then show ?case by simp
next
  case (Cons x xs)
  have rest: "\<forall>y \<in> set xs. 0 \<le> y" using Cons.prems by simp
  have unfold: "accumulate_rounded round_f32 (x # xs) a
      = accumulate_rounded round_f32 xs (round_f32 (a + x))"
    by (simp add: accumulate_rounded_def)
  show ?case
  proof (cases "x = 1")
    case True
    have "2 powi 0 \<le> a + x" using Cons.prems True by simp
    then have "2 powi 0 \<le> round_f32 (a + x)" by (rule round_f32_ge_power) simp_all
    then have "1 \<le> round_f32 (a + x)" by simp
    then show ?thesis unfolding unfold by (rule accumulate_rounded_ge_1[OF rest])
  next
    case False
    then have mem: "1 \<in> set xs" using Cons.prems by simp
    have "0 \<le> a + x" using Cons.prems by simp
    then have "0 \<le> round_f32 (a + x)" by (rule round_f32_nonneg)
    then show ?thesis unfolding unfold by (rule Cons.IH[OF rest mem])
  qed
qed

lemma accumulate_rounded_upper:
  assumes "\<forall>x \<in> set xs. 0 \<le> x" and "0 \<le> a"
  shows "accumulate_rounded round_f32 xs a
       \<le> (1 + 1 / 2 ^ 24) ^ length xs * (a + sum_list xs + real (length xs) / 2 ^ 150)"
  using assms
proof (induction xs arbitrary: a)
  case Nil
  then show ?case by (simp add: accumulate_rounded_def)
next
  case (Cons x xs)
  define u :: real where "u = 1 / 2 ^ 24"
  define h :: real where "h = 1 / 2 ^ 150"
  define m where "m = length xs"
  have u: "0 \<le> u" and h: "0 \<le> h" by (simp_all add: u_def h_def)
  have rest: "\<forall>y \<in> set xs. 0 \<le> y" using Cons.prems by simp
  have s: "0 \<le> sum_list xs" using rest by (simp add: sum_list_nonneg)
  have ax: "0 \<le> a + x" using Cons.prems by simp
  then have r0: "0 \<le> round_f32 (a + x)" by (rule round_f32_nonneg)
  have "\<bar>round_f32 (a + x) - (a + x)\<bar> \<le> \<bar>a + x\<bar> * u + h"
    using round_f32_error[of "a + x"] by (simp add: u_def h_def)
  then have r: "round_f32 (a + x) \<le> (1 + u) * (a + x) + h"
    using ax by (simp add: algebra_simps abs_le_iff)
  have p: "0 \<le> (1 + u) ^ m" using u by simp
  have "accumulate_rounded round_f32 xs (round_f32 (a + x))
      \<le> (1 + u) ^ m * (round_f32 (a + x) + sum_list xs + real m * h)"
    using Cons.IH[OF rest r0] by (simp add: u_def h_def m_def)
  also have "\<dots> \<le> (1 + u) ^ m * ((1 + u) * (a + x) + h + sum_list xs + real m * h)"
    using r p by (intro mult_left_mono) simp_all
  also have "\<dots> \<le> (1 + u) ^ m * ((1 + u) * (a + x + sum_list xs + (real m + 1) * h))"
  proof -
    have "0 \<le> u * (sum_list xs + (real m + 1) * h)" using u s h by simp
    then have "(1 + u) * (a + x) + h + sum_list xs + real m * h
        \<le> (1 + u) * (a + x + sum_list xs + (real m + 1) * h)"
      by (simp add: algebra_simps)
    then show ?thesis using p by (intro mult_left_mono) simp_all
  qed
  finally have "accumulate_rounded round_f32 xs (round_f32 (a + x))
      \<le> (1 + u) ^ Suc m * (a + x + sum_list xs + (real m + 1) * h)"
    by (simp only: power_Suc mult_ac)
  moreover have "accumulate_rounded round_f32 (x # xs) a
      = accumulate_rounded round_f32 xs (round_f32 (a + x))"
    by (simp add: accumulate_rounded_def)
  moreover have "a + sum_list (x # xs) + real (Suc m) / 2 ^ 150
      = a + x + sum_list xs + (real m + 1) * h"
    by (simp add: h_def add_divide_distrib)
  moreover have "length (x # xs) = Suc m" by (simp add: m_def)
  ultimately show ?case unfolding u_def by (simp only:)
qed

lemma accumulate_rounded_lower:
  assumes "\<forall>x \<in> set xs. 0 \<le> x" and "0 \<le> a"
  shows "(1 - 1 / 2 ^ 24) ^ length xs * (a + sum_list xs) - real (length xs) / 2 ^ 150
       \<le> accumulate_rounded round_f32 xs a"
  using assms
proof (induction xs arbitrary: a)
  case Nil
  then show ?case by (simp add: accumulate_rounded_def)
next
  case (Cons x xs)
  define u :: real where "u = 1 / 2 ^ 24"
  define h :: real where "h = 1 / 2 ^ 150"
  define m where "m = length xs"
  have u: "0 \<le> 1 - u" "1 - u \<le> 1" and h: "0 \<le> h" by (simp_all add: u_def h_def)
  have rest: "\<forall>y \<in> set xs. 0 \<le> y" using Cons.prems by simp
  have s: "0 \<le> sum_list xs" using rest by (simp add: sum_list_nonneg)
  have ax: "0 \<le> a + x" using Cons.prems by simp
  then have r0: "0 \<le> round_f32 (a + x)" by (rule round_f32_nonneg)
  have "\<bar>round_f32 (a + x) - (a + x)\<bar> \<le> \<bar>a + x\<bar> * u + h"
    using round_f32_error[of "a + x"] by (simp add: u_def h_def)
  then have r: "(1 - u) * (a + x) - h \<le> round_f32 (a + x)"
    using ax by (simp add: algebra_simps abs_le_iff)
  have p: "0 \<le> (1 - u) ^ m" using u by simp
  have p1: "(1 - u) ^ m \<le> 1" using u by (simp add: power_le_one)
  have "(1 - u) ^ Suc m * (a + x + sum_list xs) - (real m + 1) * h
      \<le> (1 - u) ^ m * ((1 - u) * (a + x) - h + sum_list xs) - real m * h"
  proof -
    have "(1 - u) ^ m * ((1 - u) * sum_list xs) \<le> (1 - u) ^ m * sum_list xs"
      using p u s by (intro mult_left_mono mult_left_le_one_le) simp_all
    moreover have "(1 - u) ^ m * h \<le> 1 * h" using p1 h by (rule mult_right_mono)
    ultimately show ?thesis by (simp add: algebra_simps)
  qed
  also have "\<dots> \<le> (1 - u) ^ m * (round_f32 (a + x) + sum_list xs) - real m * h"
    using r p by (simp add: mult_left_mono)
  also have "\<dots> \<le> accumulate_rounded round_f32 xs (round_f32 (a + x))"
    using Cons.IH[OF rest r0] by (simp add: u_def h_def m_def)
  finally have "(1 - u) ^ Suc m * (a + x + sum_list xs) - (real m + 1) * h
      \<le> accumulate_rounded round_f32 xs (round_f32 (a + x))" .
  moreover have "accumulate_rounded round_f32 (x # xs) a
      = accumulate_rounded round_f32 xs (round_f32 (a + x))"
    by (simp add: accumulate_rounded_def)
  moreover have "(1 - u) ^ Suc m * (a + sum_list (x # xs)) - real (Suc m) / 2 ^ 150
      = (1 - u) ^ Suc m * (a + x + sum_list xs) - (real m + 1) * h"
    by (simp add: h_def add_divide_distrib add.assoc)
  moreover have "length (x # xs) = Suc m" by (simp add: m_def)
  ultimately show ?case unfolding u_def by (simp only:)
qed

lemma sum_list_affine:
  "(\<Sum>e\<leftarrow>xs. c * (e / F) + h) = c * (sum_list xs / F) + real (length xs) * (h::real)"
  by (induction xs) (simp_all add: algebra_simps add_divide_distrib)

lemma softmax_rounded_map:
  "softmax_rounded rnd expf scores
     = map (\<lambda>e. rnd (e / accumulate_rounded rnd (expScores_rounded rnd expf scores) 0))
           (expScores_rounded rnd expf scores)"
  by (intro nth_equalityI) (simp_all add: softmax_rounded_def expScores_rounded_def)

lemma softmax_f32_sum_bounds:
  assumes "scores \<noteq> []" and "expf 0 = 1" and "\<forall>y. 0 \<le> expf y" and "length scores \<le> 128"
  shows "\<bar>sum_list (softmax_rounded round_f32 expf scores) - 1\<bar> \<le> 1 / 100000"
proof -
  define u :: real where "u = 1 / 2 ^ 24"
  define h :: real where "h = 1 / 2 ^ 150"
  define E where "E = expScores_rounded round_f32 expf scores"
  define F where "F = accumulate_rounded round_f32 E 0"
  define S where "S = sum_list E"
  define n where "n = length E"
  have n: "n \<le> 128" using assms(4) by (simp add: n_def E_def expScores_rounded_def)
  have u: "0 \<le> u" "0 \<le> 1 - u" and h: "0 \<le> h" by (simp_all add: u_def h_def)
  have nonneg: "\<forall>x \<in> set E. 0 \<le> x"
    using assms(3) by (auto simp: E_def expScores_rounded_def)
  have "max_element scores \<in> set scores" using assms(1) by (rule max_element_mem)
  then have "expf (round_f32 (max_element scores - max_element scores)) \<in> set E"
    unfolding E_def expScores_rounded_def
    by (auto simp: image_iff intro: bexI[where x = "max_element scores"])
  then have one: "1 \<in> set E" by (simp add: round_f32_0 assms(2))
  have F1: "1 \<le> F" unfolding F_def using nonneg one by (rule accumulate_rounded_ge_1_mem) simp
  have S0: "0 \<le> S" unfolding S_def using nonneg by (simp add: sum_list_nonneg)
  have up: "F \<le> (1 + u) ^ n * (S + real n * h)"
    using accumulate_rounded_upper[OF nonneg, of 0] by (simp add: F_def S_def n_def u_def h_def)
  have lo: "(1 - u) ^ n * S - real n * h \<le> F"
    using accumulate_rounded_lower[OF nonneg, of 0] by (simp add: F_def S_def n_def u_def h_def)
  have nh: "real n * h \<le> 128 * h" using n h by (intro mult_right_mono) simp_all
  have nh0: "0 \<le> real n * h" using h by simp
  have bern: "1 - real n * u \<le> (1 - u) ^ n"
    using Bernoulli_inequality[of "- u" n] by (simp add: u_def)
  have "real n * u \<le> 128 * u" using n u by (intro mult_right_mono) simp_all
  then have L: "1 - 128 * u \<le> (1 - u) ^ n" using bern by linarith
  have Lpos: "0 < (1 - u) ^ n" using L by (simp add: u_def)
  have "((1 + u) * (1 - u)) ^ n \<le> 1"
    using u by (intro power_le_one) (simp_all add: algebra_simps u_def)
  then have U: "(1 + u) ^ n * (1 - u) ^ n \<le> 1" by (simp add: power_mult_distrib)
  have Upos: "0 < (1 + u) ^ n" using u by (intro zero_less_power) simp
  have ratio_up: "S / F \<le> (1 + 128 * h) / (1 - 128 * u)"
  proof -
    have "(1 - 128 * u) * S \<le> (1 - u) ^ n * S" using L S0 by (rule mult_right_mono)
    also have "\<dots> \<le> F + real n * h" using lo by simp
    also have "\<dots> \<le> F + 128 * h * F"
    proof -
      have "128 * h * 1 \<le> 128 * h * F" using F1 h by (intro mult_left_mono) simp_all
      then show ?thesis using nh by simp
    qed
    finally have "(1 - 128 * u) * S \<le> (1 + 128 * h) * F" by (simp add: algebra_simps)
    moreover have "0 < 1 - 128 * u" by (simp add: u_def)
    moreover have "0 < F" using F1 by simp
    ultimately show ?thesis by (simp add: field_simps)
  qed
  have ratio_lo: "1 - 128 * u - 128 * h \<le> S / F"
  proof -
    have "(1 - u) ^ n * F \<le> (1 - u) ^ n * ((1 + u) ^ n * (S + real n * h))"
      using up Lpos by (intro mult_left_mono) simp_all
    also have "\<dots> = ((1 + u) ^ n * (1 - u) ^ n) * (S + real n * h)" by simp
    also have "\<dots> \<le> 1 * (S + real n * h)" using U S0 nh0 by (intro mult_right_mono) simp_all
    finally have "(1 - u) ^ n * F \<le> S + real n * h" by simp
    moreover have "(1 - 128 * u) * F \<le> (1 - u) ^ n * F" using L F1 by (intro mult_right_mono) simp_all
    ultimately have "(1 - 128 * u) * F \<le> S + 128 * h" using nh by linarith
    moreover have "128 * h * 1 \<le> 128 * h * F" using F1 h by (intro mult_left_mono) simp_all
    ultimately have "(1 - 128 * u - 128 * h) * F \<le> S" by (simp add: algebra_simps)
    moreover have "0 < F" using F1 by simp
    ultimately show ?thesis by (simp add: field_simps)
  qed
  have ratio0: "0 \<le> S / F" using S0 F1 by simp
  have sm: "softmax_rounded round_f32 expf scores = map (\<lambda>e. round_f32 (e / F)) E"
    unfolding F_def E_def by (rule softmax_rounded_map)
  have ent: "\<And>e. e \<in> set E \<Longrightarrow>
      (1 - u) * (e / F) - h \<le> round_f32 (e / F) \<and> round_f32 (e / F) \<le> (1 + u) * (e / F) + h"
  proof -
    fix e assume "e \<in> set E"
    define q where "q = e / F"
    have "0 \<le> q" using \<open>e \<in> set E\<close> nonneg F1 by (simp add: q_def)
    moreover have "\<bar>round_f32 q - q\<bar> \<le> \<bar>q\<bar> * u + h"
      using round_f32_error[of q] by (simp add: u_def h_def)
    ultimately have "(1 - u) * q - h \<le> round_f32 q \<and> round_f32 q \<le> (1 + u) * q + h"
      by (simp add: algebra_simps abs_le_iff)
    then show "(1 - u) * (e / F) - h \<le> round_f32 (e / F)
        \<and> round_f32 (e / F) \<le> (1 + u) * (e / F) + h"
      by (simp only: q_def)
  qed
  have "sum_list (map (\<lambda>e. round_f32 (e / F)) E) \<le> (\<Sum>e\<leftarrow>E. (1 + u) * (e / F) + h)"
    using ent by (intro sum_list_mono) simp
  then have sum_up: "sum_list (softmax_rounded round_f32 expf scores)
      \<le> (1 + u) * (S / F) + real n * h"
    by (simp only: sm sum_list_affine S_def n_def)
  have "(\<Sum>e\<leftarrow>E. (1 - u) * (e / F) + (- h)) \<le> sum_list (map (\<lambda>e. round_f32 (e / F)) E)"
    using ent by (intro sum_list_mono) simp
  then have sum_lo: "(1 - u) * (S / F) - real n * h
      \<le> sum_list (softmax_rounded round_f32 expf scores)"
    by (simp only: sm sum_list_affine S_def n_def)
  have "sum_list (softmax_rounded round_f32 expf scores)
      \<le> (1 + u) * ((1 + 128 * h) / (1 - 128 * u)) + 128 * h"
  proof -
    have "(1 + u) * (S / F) \<le> (1 + u) * ((1 + 128 * h) / (1 - 128 * u))"
      using ratio_up u by (intro mult_left_mono) simp_all
    then show ?thesis using sum_up nh by linarith
  qed
  moreover have "(1 + u) * ((1 + 128 * h) / (1 - 128 * u)) + 128 * h \<le> 1 + 1 / 100000"
    by (simp add: u_def h_def)
  moreover have "(1 - u) * (1 - 128 * u - 128 * h) - 128 * h
      \<le> sum_list (softmax_rounded round_f32 expf scores)"
  proof -
    have "(1 - u) * (1 - 128 * u - 128 * h) \<le> (1 - u) * (S / F)"
      using ratio_lo u by (intro mult_left_mono) simp_all
    then show ?thesis using sum_lo nh by linarith
  qed
  moreover have "1 - 1 / 100000 \<le> (1 - u) * (1 - 128 * u - 128 * h) - 128 * h"
    by (simp add: u_def h_def)
  ultimately have "sum_list (softmax_rounded round_f32 expf scores) \<le> 1 + 1 / 100000"
    and "1 - 1 / 100000 \<le> sum_list (softmax_rounded round_f32 expf scores)"
    by linarith+
  then show ?thesis by linarith
qed

text \<open>
  Claim C4, as the code has it. For a non-empty score vector, in single precision,
  \<open>softmax\<close> returns as many entries as it was given, none of them negative. Entry \<open>i\<close> is
  the rounded quotient of the exponential of the rounded difference between the score and
  the largest score, by the running sum of these exponentials; that sum is at least one
  (the largest score contributes \<open>expf 0 = 1\<close>, and a float sum of non-negative terms that
  has reached one stays there), so the division is never by zero. On at most 128
  scores the entries add up to one within \<open>1e-5\<close>: every sum and quotient has a relative
  error of at most \<open>2^(-24)\<close>, or an absolute one of \<open>2^(-150)\<close>. In exact arithmetic
  the entries add up to one.
\<close>

theorem softmax_f32_well_defined:
  assumes "scores \<noteq> []" and "expf 0 = 1" and "\<forall>y. 0 \<le> expf y"
  shows "length (softmax_rounded round_f32 expf scores) = length scores
       \<and> (\<forall>p \<in> set (softmax_rounded round_f32 expf scores). 0 \<le> p)
       \<and> 1 \<le> accumulate_rounded round_f32 (expScores_rounded round_f32 expf scores) 0
       \<and> (\<forall>i < length scores.
             softmax_rounded round_f32 expf scores ! i
               = round_f32 (expf (round_f32 (scores ! i - Max (set scores)))
                   / accumulate_rounded round_f32 (expScores_rounded round_f32 expf scores) 0))
       \<and> (length scores \<le> 128
            \<longrightarrow> \<bar>sum_list (softmax_rounded round_f32 expf scores) - 1\<bar> \<le> 1 / 100000)
       \<and> sum_list (softmax scores) = 1"
proof -
  let ?E = "expScores_rounded round_f32 expf scores"
  have nonneg: "\<forall>x \<in> set ?E. 0 \<le> x"
    using assms(3) by (auto simp: expScores_rounded_def)
  have "max_element scores \<in> set scores" using assms(1) by (rule max_element_mem)
  then have "expf (round_f32 (max_element scores - max_element scores)) \<in> set ?E"
    unfolding expScores_rounded_def by (auto simp: image_iff intro: bexI[where x = "max_element scores"])
  then have one: "1 \<in> set ?E" by (simp add: round_f32_0 assms(2))
  have ge: "1 \<le> accumulate_rounded round_f32 ?E 0"
    using nonneg one by (rule accumulate_rounded_ge_1_mem) simp
  have ent: "\<forall>p \<in> set (softmax_rounded round_f32 expf scores). 0 \<le> p"
  proof
    fix p assume "p \<in> set (softmax_rounded round_f32 expf scores)"
    then obtain i where i: "i < length scores"
      and p: "p = round_f32 (?E ! i / accumulate_rounded round_f32 ?E 0)"
      by (auto simp: softmax_rounded_def)
    have "?E ! i \<in> set ?E" using i by (intro nth_mem) (simp add: expScores_rounded_def)
    then have "0 \<le> ?E ! i" using nonneg by blast
    then have "0 \<le> ?E ! i / accumulate_rounded round_f32 ?E 0" using ge by simp
    then show "0 \<le> p" unfolding p by (rule round_f32_nonneg)
  qed
  have nth: "\<forall>i < length scores.
      softmax_rounded round_f32 expf scores ! i
        = round_f32 (expf (round_f32 (scores ! i - Max (set scores)))
            / accumulate_rounded round_f32 ?E 0)"
    using assms(1) by (simp add: softmax_rounded_def expScores_rounded_def max_element_Max)
  have len: "length (softmax_rounded round_f32 expf scores) = length scores"
    by (simp add: softmax_rounded_def)
  have short: "length scores \<le> 128
      \<longrightarrow> \<bar>sum_list (softmax_rounded round_f32 expf scores) - 1\<bar> \<le> 1 / 100000"
    using softmax_f32_sum_bounds[OF assms] by blast
  from len ent ge nth short sum_list_softmax[OF assms(1)] show ?thesis by blast
qed

theorem softmax_f32_well_defined_witness:
  "length (softmax_rounded round_f32 expf_f32 [0, 0]) = 2
   \<and> 1 \<le> accumulate_rounded round_f32 (expScores_rounded round_f32 expf_f32 [0, 0]) 0
   \<and> \<bar>sum_list (softmax_rounded round_f32 expf_f32 [0, 0]) - 1\<bar> \<le> 1 / 100000
   \<and> sum_list (softmax [0, 0]) = 1"
  using softmax_f32_well_defined[of "[0, 0]" expf_f32]
  by (simp add: expf_f32_0 expf_f32_nonneg)

lemma accumulate_ones:
  assumes "a \<le> 2 ^ 24"
  shows "accumulate_rounded round_f32 (replicate n 1) (real a) = real (min (a + n) (2 ^ 24))"
  using assms
proof (induction n arbitrary: a)
  case 0
  then show ?case by (simp add: accumulate_rounded_def)
next
  case (Suc n)
  have step: "accumulate_rounded round_f32 (replicate (Suc n) 1) (real a)
      = accumulate_rounded round_f32 (replicate n 1) (round_f32 (real a + 1))"
    by (simp add: accumulate_rounded_def)
  show ?case
  proof (cases "a = 2 ^ 24")
    case True
    then have "round_f32 (real a + 1) = real a" by (simp add: r_2p24_1)
    then show ?thesis using Suc.IH[of a] True unfolding step by simp
  next
    case False
    then have a1: "a + 1 \<le> 2 ^ 24" using Suc.prems by simp
    have "round_f32 (real a + 1) = real (a + 1)"
      using round_f32_nat[OF a1] by (simp add: add.commute)
    then show ?thesis using Suc.IH[OF a1] unfolding step by simp
  qed
qed

lemma max_element_replicate: "0 < n \<Longrightarrow> max_element (replicate n c) = c"
  using max_element_Max[of "replicate n c"] by simp

lemma r_inv_2p24: "round_f32 (1 / 16777216) = 1 / 16777216"
  using round_f32_eval[of "- 24" "1 / 16777216"] by (simp add: rne_def)

lemma softmax_f32_equal_scores:
  assumes "2 ^ 24 \<le> n"
  shows "softmax_rounded round_f32 expf_f32 (replicate n 0) = replicate n (1 / 2 ^ 24)"
proof -
  have n0: "0 < n" using assms by (simp add: less_le_trans[of 0 "2 ^ 24"])
  have e: "expScores_rounded round_f32 expf_f32 (replicate n 0) = replicate n 1"
    by (simp add: expScores_rounded_def max_element_replicate[OF n0] round_f32_0 expf_f32_0)
  have "accumulate_rounded round_f32 (replicate n 1) (real 0) = real (min (0 + n) (2 ^ 24))"
    by (rule accumulate_ones) simp
  then have s: "accumulate_rounded round_f32 (replicate n 1) 0 = 2 ^ 24"
    using assms by (simp add: min_def)
  show ?thesis
    by (intro nth_equalityI) (simp_all add: softmax_rounded_def e s r_inv_2p24)
qed

text \<open>
  Claim C4 as stated fails in single precision: on long inputs the entries need not add
  up to one. On
  \<open>2^25\<close> equal scores every exponential is \<open>1\<close>, the running sum stops at \<open>2^24\<close> (there
  \<open>2^24 + 1\<close> rounds back to \<open>2^24\<close>), every entry is \<open>2^(-24)\<close>, and the entries add up to
  \<open>2\<close>.
\<close>

theorem softmax_f32_sum_is_two:
  "sum_list (softmax_rounded round_f32 expf_f32 (replicate many_scores 0)) = 2"
proof -
  have "(2::nat) ^ 24 \<le> many_scores" by (simp add: many_scores_def)
  then have "softmax_rounded round_f32 expf_f32 (replicate many_scores 0)
      = replicate many_scores (1 / 2 ^ 24)"
    by (rule softmax_f32_equal_scores)
  then have "sum_list (softmax_rounded round_f32 expf_f32 (replicate many_scores 0))
      = real many_scores * (1 / 2 ^ 24)"
    by (simp only: sum_list_replicate)
  also have "\<dots> = 2" by (simp add: many_scores_def)
  finally show ?thesis .
qed













section \<open>The layer normalisation formula in single precision\<close>

lemma fold_squares_nonneg:
  assumes "0 \<le> a"
  shows "0 \<le> fold (\<lambda>val variance. round_f32 (variance + round_f32 (round_f32 (val - m) * round_f32 (val - m)))) xs a"
  using assms
proof (induction xs arbitrary: a)
  case Nil
  then show ?case by simp
next
  case (Cons x xs)
  have "0 \<le> round_f32 (x - m) * round_f32 (x - m)" by simp
  then have "0 \<le> round_f32 (round_f32 (x - m) * round_f32 (x - m))" by (rule round_f32_nonneg)
  then have "0 \<le> a + round_f32 (round_f32 (x - m) * round_f32 (x - m))" using Cons.prems by simp
  then have "0 \<le> round_f32 (a + round_f32 (round_f32 (x - m) * round_f32 (x - m)))"
    by (rule round_f32_nonneg)
  from Cons.IH[OF this] show ?case by simp
qed

lemma layerNorm_variance_f32_nonneg: "0 \<le> layerNorm_variance_rounded round_f32 input"
proof -
  have "0 \<le> real (length input)" by simp
  then have "0 \<le> round_f32 (real (length input))" by (rule round_f32_nonneg)
  moreover have "0 \<le> fold (\<lambda>val variance. round_f32 (variance + round_f32
      (round_f32 (val - layerNorm_mean_rounded round_f32 input)
       * round_f32 (val - layerNorm_mean_rounded round_f32 input)))) input 0"
    by (rule fold_squares_nonneg) simp
  ultimately have "0 \<le> fold (\<lambda>val variance. round_f32 (variance + round_f32
      (round_f32 (val - layerNorm_mean_rounded round_f32 input)
       * round_f32 (val - layerNorm_mean_rounded round_f32 input)))) input 0
      / round_f32 (real (length input))"
    by (intro divide_nonneg_nonneg)
  then show ?thesis
    unfolding layerNorm_variance_rounded_def by (rule round_f32_nonneg)
qed

lemma layerNorm_f32_divisor:
  "1 / 512 \<le> round_f32 (sqrt (round_f32 (layerNorm_variance_rounded round_f32 input + epsilon_f32)))"
proof -
  let ?v = "layerNorm_variance_rounded round_f32 input"
  have "2 powi (- 17) \<le> epsilon_f32" by (simp add: epsilon_f32_def power_int_minus field_simps)
  then have "2 powi (- 17) \<le> ?v + epsilon_f32"
    using layerNorm_variance_f32_nonneg[of input] by linarith
  then have "2 powi (- 17) \<le> round_f32 (?v + epsilon_f32)"
    by (rule round_f32_ge_power) simp_all
  moreover have "(2 powi (- 9))\<^sup>2 \<le> (2::real) powi (- 17)"
    by (simp add: power_int_minus field_simps)
  ultimately have "(2 powi (- 9))\<^sup>2 \<le> round_f32 (?v + epsilon_f32)" by linarith
  then have "2 powi (- 9) \<le> sqrt (round_f32 (?v + epsilon_f32))"
    by (rule real_le_rsqrt)
  then have "2 powi (- 9) \<le> round_f32 (sqrt (round_f32 (?v + epsilon_f32)))"
    by (rule round_f32_ge_power) simp_all
  then show ?thesis by (simp add: power_int_minus)
qed

text \<open>
  Claim C6, as the code has it. For a non-empty input and \<open>gamma\<close>, \<open>beta\<close> of its length,
  \<open>layerNorm\<close> with the default epsilon returns a vector of the same length. When no
  intermediate result overflows, entry \<open>i\<close> is the single-precision value of
  \<open>gamma[i] * (input[i] - mean) / sqrt (variance + epsilon) + beta[i]\<close>, every operation
  rounded, where \<open>mean\<close> and \<open>variance\<close> are the float running sum of the entries and of
  the rounded squared deviations, each divided by \<open>N\<close> (not \<open>N - 1\<close>); the divisor is at
  least \<open>2^(-9)\<close>. In exact arithmetic these are the arithmetic mean and the population
  variance, and the entry is the value of the expression on them.
\<close>

theorem layerNorm_f32_formula:
  assumes "input \<noteq> []" and "length gamma = length input" and "length beta = length input"
    and "layerNorm_in_range input gamma beta epsilon_f32"
  shows "length (layerNorm_rounded round_f32 input gamma beta epsilon_f32) = length input
       \<and> 1 / 512 \<le> round_f32 (sqrt (round_f32
             (layerNorm_variance_rounded round_f32 input + epsilon_f32)))
       \<and> (\<forall>i < length input.
             layerNorm_rounded round_f32 input gamma beta epsilon_f32 ! i
               = round_f32 (round_f32 (round_f32
                     (gamma ! i * round_f32 (input ! i - layerNorm_mean_rounded round_f32 input))
                   / round_f32 (sqrt (round_f32
                       (layerNorm_variance_rounded round_f32 input + epsilon_f32))))
                 + beta ! i))
       \<and> layerNorm_mean_rounded (\<lambda>x. x) input = arithmetic_mean input
       \<and> layerNorm_variance_rounded (\<lambda>x. x) input = population_variance input
       \<and> (\<forall>i < length input.
             layerNorm_rounded (\<lambda>x. x) input gamma beta (1 / 100000) ! i
               = gamma ! i * (input ! i - arithmetic_mean input)
                   / sqrt (population_variance input + 1 / 100000) + beta ! i)"
proof -
  have m: "layerNorm_mean_rounded (\<lambda>x. x) input = arithmetic_mean input"
    by (simp add: layerNorm_mean_rounded_exact layerNorm_mean_arithmetic)
  have v: "layerNorm_variance_rounded (\<lambda>x. x) input = population_variance input"
    by (simp add: layerNorm_variance_rounded_exact layerNorm_variance_population)
  have f: "\<forall>i < length input.
      layerNorm_rounded (\<lambda>x. x) input gamma beta (1 / 100000) ! i
        = gamma ! i * (input ! i - arithmetic_mean input)
            / sqrt (population_variance input + 1 / 100000) + beta ! i"
    by (simp add: layerNorm_rounded_def m v)
  show ?thesis
    using m v f layerNorm_f32_divisor[of input] by (simp add: layerNorm_rounded_def)
qed

lemma r_m1: "round_f32 (- 1) = - 1"
  using round_f32_eval[of 0 "- 1"] by (simp add: rne_def)

lemma r_m2: "round_f32 (- 2) = - 2"
  using round_f32_eval[of 1 "- 2"] by (simp add: rne_def)

lemma mean_f32_13: "layerNorm_mean_rounded round_f32 [1, 3] = 2"
  by (simp add: layerNorm_mean_rounded_def accumulate_rounded_def r_1 r_4 r_2)

lemma variance_f32_13: "layerNorm_variance_rounded round_f32 [1, 3] = 1"
  by (simp add: layerNorm_variance_rounded_def mean_f32_13 r_m1 r_1 r_2)

lemma r_1eps: "round_f32 (274880655723 / 274877906944) = 2097173 / 2097152"
  using round_f32_eval[of 0 "274880655723 / 274877906944"] by (simp add: rne_def)

lemma sqrt_1eps_bounds:
  "4194325 / 4194304 - 1 / 16777216 < sqrt (2097173 / 2097152)"
  "sqrt (2097173 / 2097152) < 4194325 / 4194304 + 1 / 16777216"
  by (rule real_less_rsqrt, simp add: power2_eq_square)
     (rule real_less_lsqrt, simp_all add: power2_eq_square)

lemma r_sqrt_1eps: "round_f32 (sqrt (2097173 / 2097152)) = 4194325 / 4194304"
proof -
  let ?y = "sqrt (2097173 / 2097152 :: real)"
  have lo: "2 powi 0 \<le> \<bar>?y\<bar>" using sqrt_1eps_bounds(1) by simp
  have hi: "\<bar>?y\<bar> < 2 powi (0 + 1)" using sqrt_1eps_bounds(2) by simp
  have "rne (?y / 2 powi (0 - 23)) = 8388650"
    using sqrt_1eps_bounds by (intro rne_eq) simp_all
  then show ?thesis using round_f32_eval[OF lo hi] by simp
qed

lemma r_q0: "round_f32 (- (8388608 / 4194325)) = - (4194283 / 2097152)"
  using round_f32_eval[of 0 "- (8388608 / 4194325)"] by (simp add: rne_def)

lemma r_q1: "round_f32 (8388608 / 4194325) = 4194283 / 2097152"
  using round_f32_eval[of 0 "8388608 / 4194325"] by (simp add: rne_def)

lemma r_out0: "round_f32 (6291477 / 2097152) = 6291477 / 2097152"
  using round_f32_eval[of 1 "6291477 / 2097152"] by (simp add: rne_def)

lemma r_out1: "round_f32 (18874347 / 2097152) = 4718587 / 524288"
  using round_f32_eval[of 3 "18874347 / 2097152"] by (simp add: rne_def)

lemmas layerNorm_13_values = mean_f32_13 variance_f32_13 epsilon_f32_def r_1eps r_sqrt_1eps
  r_1 r_2 r_4 r_m1 r_m2 r_q0 r_q1 r_out0 r_out1

lemma layerNorm_13_in_range: "layerNorm_in_range [1, 3] [2, 2] [5, 7] epsilon_f32"
  by (simp add: layerNorm_in_range_def accumulate_rounded_def f32_in_range_def
      layerNorm_13_values)

lemma layerNorm_13_value:
  "layerNorm_rounded round_f32 [1, 3] [2, 2] [5, 7] epsilon_f32
     = [6291477 / 2097152, 4718587 / 524288]"
  by (simp add: layerNorm_rounded_def layerNorm_13_values)

theorem layerNorm_f32_formula_witness:
  "layerNorm_in_range [1, 3] [2, 2] [5, 7] epsilon_f32
   \<and> length (layerNorm_rounded round_f32 [1, 3] [2, 2] [5, 7] epsilon_f32) = 2
   \<and> layerNorm_variance_rounded round_f32 [1, 3] = 1
   \<and> layerNorm_variance_rounded (\<lambda>x. x) [1, 3] = population_variance [1, 3]
   \<and> population_variance [1, 3] = 1
   \<and> layerNorm_rounded round_f32 [1, 3] [2, 2] [5, 7] epsilon_f32 ! 0 = 6291477 / 2097152"
  using layerNorm_13_in_range layerNorm_f32_formula[of "[1, 3]" "[2, 2]" "[5, 7]"]
  by (simp add: variance_f32_13 layerNorm_13_value population_variance_def arithmetic_mean_def)

text \<open>
  Claim C6 as stated fails in single precision: the entry is not the value of the
  expression on the arithmetic mean and the population variance. For three copies of
  \<open>1.5 + 2^(-22)\<close>, \<open>gamma = 1\<close> and \<open>beta = 0\<close> that value is \<open>0\<close> (the deviation from the
  mean is zero), and \<open>layerNorm\<close> returns \<open>- 10362152 / 2^38\<close>, about \<open>- 0.0000377\<close>: the
  float mean is \<open>2^(-23)\<close> above the entries.
\<close>

theorem layerNorm_f32_differs_from_formula:
  "layerNorm_rounded round_f32
      [12582914 / 2 ^ 23, 12582914 / 2 ^ 23, 12582914 / 2 ^ 23] [1, 1, 1] [0, 0, 0] epsilon_f32 ! 0
    \<noteq> [1, 1, 1] ! 0
        * ([12582914 / 2 ^ 23, 12582914 / 2 ^ 23, 12582914 / 2 ^ 23] ! 0
           - arithmetic_mean [12582914 / 2 ^ 23, 12582914 / 2 ^ 23, 12582914 / 2 ^ 23])
        / sqrt (population_variance [12582914 / 2 ^ 23, 12582914 / 2 ^ 23, 12582914 / 2 ^ 23]
                + 1 / 100000)
        + [0, 0, 0] ! 0"
  by (simp add: epsilon_f32_def layerNorm_f32_value arithmetic_mean_def population_variance_def)

section \<open>Causal masking in single precision\<close>








































end
